theory Spec2Isabelle
  imports Complex_Main "HOL-Library.Word" "HOL-Library.Sublist"
begin

section \<open>JavaScript strings\<close>

text \<open>
  A JavaScript string is a sequence of 16-bit code units; \<open>length\<close>, \<open>substring\<close>,
  \<open>lastIndexOf\<close> and the regular expressions of \<open>script.js\<close> all count and match code
  units. The functions below are the string built-ins that \<open>script.js\<close> calls, each
  restricted to the way it is called there.
\<close>

type_synonym unit16 = "16 word"
type_synonym jsstr = "unit16 list"

definition js :: "string \<Rightarrow> jsstr" where
  \<open>js s = map of_char s\<close>

definition SPACE :: unit16 where \<open>SPACE = 0x20\<close>
definition NL :: unit16 where \<open>NL = 0x0A\<close>
definition AMP :: unit16 where \<open>AMP = 0x26\<close>
definition LT :: unit16 where \<open>LT = 0x3C\<close>
definition GT :: unit16 where \<open>GT = 0x3E\<close>
definition DQUOTE :: unit16 where \<open>DQUOTE = 0x22\<close>
definition SQUOTE :: unit16 where \<open>SQUOTE = 0x27\<close>
definition NBSP :: unit16 where \<open>NBSP = 0xA0\<close>

text \<open>\<open>s.lastIndexOf(c)\<close> for a one-unit search string: the greatest index holding
  \<open>c\<close>, or \<open>-1\<close>.\<close>

fun lastIndexOf :: "jsstr \<Rightarrow> unit16 \<Rightarrow> int" where
  \<open>lastIndexOf [] c = -1\<close>
| \<open>lastIndexOf (x # xs) c =
     (let r = lastIndexOf xs c
      in if 0 \<le> r then r + 1 else if x = c then 0 else -1)\<close>

text \<open>\<open>s.substring(0, n)\<close> for \<open>0 \<le> n\<close> is \<open>take n s\<close>.\<close>

definition substring0 :: "jsstr \<Rightarrow> nat \<Rightarrow> jsstr" where
  \<open>substring0 s n = take n s\<close>

text \<open>\<open>s.replace(/c/g, r)\<close> for a pattern of one code unit and a replacement without
  \<open>$\<close>: every occurrence of \<open>c\<close> becomes \<open>r\<close>.\<close>

definition replaceAll :: "unit16 \<Rightarrow> jsstr \<Rightarrow> jsstr \<Rightarrow> jsstr" where
  \<open>replaceAll c r s = concat (map (\<lambda>x. if x = c then r else [x]) s)\<close>

text \<open>\<open>s.replace(/\n\n+/g, r)\<close>: scanning from the left, every maximal run of two or
  more line feeds becomes \<open>r\<close>.\<close>

function replaceNewlineRuns :: "jsstr \<Rightarrow> jsstr \<Rightarrow> jsstr" where
  \<open>replaceNewlineRuns r [] = []\<close>
| \<open>replaceNewlineRuns r [c] = [c]\<close>
| \<open>replaceNewlineRuns r (c # d # cs) =
     (if c = NL \<and> d = NL then r @ replaceNewlineRuns r (dropWhile (\<lambda>x. x = NL) cs)
      else c # replaceNewlineRuns r (d # cs))\<close>
  by pat_completeness auto
termination
  by (relation "measure (\<lambda>(r, s). length s)")
     (auto simp: less_Suc_eq_le intro: le_trans [OF length_dropWhile_le])

text \<open>\<open>s.includes(sub)\<close>: \<open>sub\<close> occurs in \<open>s\<close> as a contiguous substring.\<close>

fun includes_str :: "jsstr \<Rightarrow> jsstr \<Rightarrow> bool" where
  \<open>includes_str [] sub \<longleftrightarrow> sub = []\<close>
| \<open>includes_str (c # cs) sub \<longleftrightarrow> prefix sub (c # cs) \<or> includes_str cs sub\<close>

text \<open>\<open>s.split('\n\n')\<close>: the pieces between successive occurrences of two line feeds,
  found from the left without overlap; a string without the separator is one piece.\<close>

fun split_nn :: "jsstr \<Rightarrow> jsstr list" where
  \<open>split_nn [] = [[]]\<close>
| \<open>split_nn [c] = [[c]]\<close>
| \<open>split_nn (c # d # cs) =
     (if c = NL \<and> d = NL then [] # split_nn cs
      else case split_nn (d # cs) of
             p # ps \<Rightarrow> (c # p) # ps
           | [] \<Rightarrow> [[c]])\<close>

text \<open>The units that \<open>trim\<close> removes: the WhiteSpace and LineTerminator productions of
  ECMAScript.\<close>

definition is_white :: "unit16 \<Rightarrow> bool" where
  \<open>is_white c \<longleftrightarrow>
     c \<in> {0x09, 0x0A, 0x0B, 0x0C, 0x0D, 0x20, 0xA0, 0x1680, 0x2028, 0x2029, 0x202F,
          0x205F, 0x3000, 0xFEFF} \<or> (0x2000 \<le> c \<and> c \<le> 0x200A)\<close>

definition trim :: "jsstr \<Rightarrow> jsstr" where
  \<open>trim s = rev (dropWhile is_white (rev (dropWhile is_white s)))\<close>

text \<open>\<open>parts.join(sep)\<close>.\<close>

fun join :: "jsstr \<Rightarrow> jsstr list \<Rightarrow> jsstr" where
  \<open>join sep [] = []\<close>
| \<open>join sep [x] = x\<close>
| \<open>join sep (x # y # ys) = x @ sep @ join sep (y # ys)\<close>

text \<open>The decimal numeral of a non-negative integer, as a template literal or
  \<open>textContent\<close> shows it.\<close>

definition digit :: "nat \<Rightarrow> unit16" where
  \<open>digit d = 0x30 + of_nat d\<close>

fun decimal :: "nat \<Rightarrow> jsstr" where
  \<open>decimal n = (if n < 10 then [digit n] else decimal (n div 10) @ [digit (n mod 10)])\<close>

declare decimal.simps [simp del]

text \<open>The last \<open>f\<close> decimal digits of \<open>n\<close>, with leading zeros.\<close>

fun fixed_digits :: "nat \<Rightarrow> nat \<Rightarrow> jsstr" where
  \<open>fixed_digits 0 n = []\<close>
| \<open>fixed_digits (Suc f) n = fixed_digits f (n div 10) @ [digit (n mod 10)]\<close>

text \<open>JavaScript truthiness of an optional string: present and not empty.\<close>

definition truthy :: "jsstr option \<Rightarrow> bool" where
  \<open>truthy v \<longleftrightarrow> (case v of None \<Rightarrow> False | Some s \<Rightarrow> s \<noteq> [])\<close>

definition RU_OPEN_SOURCE :: jsstr where
  \<open>RU_OPEN_SOURCE =
     [0x41E, 0x442, 0x43A, 0x440, 0x44B, 0x442, 0x44C, 0x20,
      0x438, 0x441, 0x442, 0x43E, 0x447, 0x43D, 0x438, 0x43A]\<close>

definition RU_SEARCH :: jsstr where
  \<open>RU_SEARCH = [0x41F, 0x43E, 0x438, 0x441, 0x43A]\<close>

section \<open>JavaScript numbers\<close>

text \<open>
  A number is a double: a finite one is modelled by its exact rational value (the two
  zeros are one value here; both print alike), the others by a constructor each.
  \<open>toFixed\<close> and \<open>toExponential\<close> follow the steps of Number.prototype.toFixed and
  Number.prototype.toExponential in ECMA-262, which are stated on the exact value; an
  infinite value and NaN print as Number::toString prints them.
\<close>

datatype number = Finite rat | PosInfinity | NegInfinity | NaN

text \<open>The comparison \<open>score < c\<close> with a finite constant.\<close>

fun less_than :: "number \<Rightarrow> rat \<Rightarrow> bool" where
  \<open>less_than (Finite x) c \<longleftrightarrow> x < c\<close>
| \<open>less_than PosInfinity c \<longleftrightarrow> False\<close>
| \<open>less_than NegInfinity c \<longleftrightarrow> True\<close>
| \<open>less_than NaN c \<longleftrightarrow> False\<close>

text \<open>The double that the literal \<open>0.001\<close> denotes: \<open>1152921504606847 / 2^60\<close>, the
  double nearest to \<open>1/1000\<close>; no double lies between the two.\<close>

definition D0_001 :: rat where
  \<open>D0_001 = 1152921504606847 / 2 ^ 60\<close>

text \<open>The integer nearest to \<open>x \<ge> 0\<close>, the larger one of two.\<close>

definition round_half_up :: "rat \<Rightarrow> nat" where
  \<open>round_half_up x = nat \<lfloor>x + 1 / 2\<rfloor>\<close>

definition pow10 :: "int \<Rightarrow> rat" where
  \<open>pow10 e = (if 0 \<le> e then 10 ^ nat e else 1 / 10 ^ nat (- e))\<close>

text \<open>For \<open>x > 0\<close>, the integer \<open>e\<close> with \<open>10^e \<le> x < 10^(e+1)\<close>.\<close>

definition exponent10 :: "rat \<Rightarrow> int" where
  \<open>exponent10 x =
     (if 1 \<le> x then int (length (decimal (nat \<lfloor>x\<rfloor>))) - 1
      else - int (length (decimal (nat (\<lceil>1 / x\<rceil> - 1)))))\<close>

text \<open>
  Number::toString for a finite double \<open>x \<ge> 10^21\<close>, which \<open>toFixed\<close> returns in
  place of fixed notation: the shortest digit string \<open>s\<close> (\<open>k\<close> digits) and exponent \<open>n\<close>
  such that \<open>s * 10^(n-k)\<close> rounds to \<open>x\<close>, the closest one of several, printed in
  exponent notation. Such an \<open>x\<close> is an integer \<open>m * 2^q\<close> with \<open>2^52 \<le> m < 2^53\<close>;
  \<open>rounds_to x v\<close> says that \<open>v\<close> lies in the rounding interval of \<open>x\<close>. Seventeen digits
  always suffice for a double.
\<close>

fun bit_length :: "nat \<Rightarrow> nat" where
  \<open>bit_length n = (if n = 0 then 0 else Suc (bit_length (n div 2)))\<close>

declare bit_length.simps [simp del]

definition rounds_to :: "rat \<Rightarrow> rat \<Rightarrow> bool" where
  \<open>rounds_to x v =
     (let i = \<lfloor>x\<rfloor>;
          q = bit_length (nat i) - 53;
          m = i div 2 ^ q;
          ulp = (2::rat) ^ q;
          up = x + ulp / 2;
          down = x - (if m = 2 ^ 52 then ulp / 4 else ulp / 2)
      in if even m then down \<le> v \<and> v \<le> up else down < v \<and> v < up)\<close>

definition candidates :: "rat \<Rightarrow> nat \<Rightarrow> (nat \<times> nat) list" where
  \<open>candidates x k =
     (let N = length (decimal (nat \<lfloor>x\<rfloor>));
          lo = nat \<lfloor>x / 10 ^ (N - k)\<rfloor>
      in (N, lo) # (if lo + 1 < 10 ^ k then [(N, lo + 1)] else [(N + 1, 10 ^ (k - 1))]))\<close>

definition denoted :: "nat \<Rightarrow> nat \<times> nat \<Rightarrow> rat" where
  \<open>denoted k c = (case c of (n, s) \<Rightarrow> of_nat s * 10 ^ (n - k))\<close>

definition closest :: "rat \<Rightarrow> nat \<Rightarrow> (nat \<times> nat) list \<Rightarrow> (nat \<times> nat) option" where
  \<open>closest x k cs =
     (case cs of
        [] \<Rightarrow> None
      | [c] \<Rightarrow> Some c
      | c # d # _ \<Rightarrow>
          if \<bar>denoted k c - x\<bar> < \<bar>denoted k d - x\<bar> then Some c
          else if \<bar>denoted k d - x\<bar> < \<bar>denoted k c - x\<bar> then Some d
          else if even (snd c) then Some c else Some d)\<close>

definition fallback :: "rat \<Rightarrow> nat \<Rightarrow> nat \<times> nat \<times> nat" where
  \<open>fallback x k =
     (let N = length (decimal (nat \<lfloor>x\<rfloor>)) in (N, k, nat \<lfloor>x / 10 ^ (N - k)\<rfloor>))\<close>

definition best :: "rat \<Rightarrow> nat \<Rightarrow> (nat \<times> nat) option" where
  \<open>best x k = closest x k (filter (\<lambda>c. rounds_to x (denoted k c)) (candidates x k))\<close>

fun shortest :: "rat \<Rightarrow> nat \<Rightarrow> nat \<Rightarrow> nat \<times> nat \<times> nat" where
  \<open>shortest x k 0 = fallback x k\<close>
| \<open>shortest x k (Suc fuel) =
     (case best x k of
        Some c \<Rightarrow> (fst c, k, snd c)
      | None \<Rightarrow> shortest x (Suc k) fuel)\<close>

definition toString_large :: "rat \<Rightarrow> jsstr" where
  \<open>toString_large x =
     (case shortest x 1 17 of
        (n, k, s) \<Rightarrow>
          (if k = 1 then decimal s
           else take 1 (decimal s) @ js ''.'' @ drop 1 (decimal s))
          @ js ''e+'' @ decimal (n - 1))\<close>

text \<open>Step 11 of \<open>toFixed\<close>, for \<open>0 \<le> x < 10^21\<close>.\<close>

definition toFixed_digits :: "nat \<Rightarrow> rat \<Rightarrow> jsstr" where
  \<open>toFixed_digits f x =
     (let n = round_half_up (x * 10 ^ f);
          m = decimal n
      in if f \<noteq> 0
         then (let m' = (if length m \<le> f then replicate (f + 1 - length m) (digit 0) @ m
                         else m);
                   k = length m'
               in take (k - f) m' @ js ''.'' @ drop (k - f) m')
         else m)\<close>

definition toFixed :: "nat \<Rightarrow> number \<Rightarrow> jsstr" where
  \<open>toFixed f num =
     (case num of
        Finite x \<Rightarrow>
          (if x < 0 then js ''-'' else []) @
          (if 10 ^ 21 \<le> \<bar>x\<bar> then toString_large \<bar>x\<bar> else toFixed_digits f \<bar>x\<bar>)
      | PosInfinity \<Rightarrow> js ''Infinity''
      | NegInfinity \<Rightarrow> js ''-Infinity''
      | NaN \<Rightarrow> js ''NaN'')\<close>

text \<open>The \<open>e\<close> and \<open>n\<close> of \<open>toExponential\<close> for \<open>x > 0\<close>: \<open>10^f \<le> n < 10^(f+1)\<close> and
  \<open>n * 10^(e-f)\<close> nearest to \<open>x\<close>, the larger one of two.\<close>

definition scientific :: "nat \<Rightarrow> rat \<Rightarrow> int \<times> nat" where
  \<open>scientific f x =
     (let e = exponent10 x;
          n = round_half_up (x / pow10 (e - int f))
      in if n = 10 ^ (f + 1) then (e + 1, 10 ^ f) else (e, n))\<close>

definition toExponential :: "nat \<Rightarrow> number \<Rightarrow> jsstr" where
  \<open>toExponential f num =
     (case num of
        Finite x \<Rightarrow>
          (let (e, m) = (if x = 0 then (0, replicate (f + 1) (digit 0))
                         else case scientific f \<bar>x\<bar> of (e, n) \<Rightarrow> (e, decimal n));
               m' = (if f \<noteq> 0 then take 1 m @ js ''.'' @ drop 1 m else m);
               (c, d) = (if e = 0 then (js ''+'', js ''0'')
                         else if 0 < e then (js ''+'', decimal (nat e))
                         else (js ''-'', decimal (nat (- e))))
           in (if x < 0 then js ''-'' else []) @ m' @ js ''e'' @ c @ d)
      | PosInfinity \<Rightarrow> js ''Infinity''
      | NegInfinity \<Rightarrow> js ''-Infinity''
      | NaN \<Rightarrow> js ''NaN'')\<close>

section \<open>Markup Formatter\<close>

subsection \<open>truncateText\<close>

text \<open>
  \<open>lastSpaceIndex > maxLength * 0.8\<close> compares an integer with a double product. For
  an integer \<open>maxLength\<close> that is a multiple of 5 the product is the exact integer
  \<open>4 * maxLength / 5\<close> (\<open>300 * 0.8\<close> is the double \<open>240\<close>), and for any other it is
  not within \<open>0.1\<close> of an integer, so the comparison is the integer comparison
  \<open>4 * maxLength < 5 * lastSpaceIndex\<close>.
\<close>

definition truncateText :: "jsstr \<Rightarrow> nat \<Rightarrow> jsstr" where
  \<open>truncateText text maxLength =
     (if length text \<le> maxLength then text
      else
        let truncated = substring0 text maxLength;
            lastSpaceIndex = lastIndexOf truncated SPACE
        in if 4 * int maxLength < 5 * lastSpaceIndex
           then substring0 truncated (nat lastSpaceIndex) @ js ''...''
           else truncated @ js ''...'')\<close>

text \<open>
  The truncation rule in the words of the specification, for the limit 300: unchanged up
  to 300 units; otherwise the first 300 units, broken at the last whitespace position
  when that position is at or after 240, and cut at 300 otherwise; an ellipsis is
  appended when the text was truncated.
\<close>

fun last_white :: "jsstr \<Rightarrow> nat option" where
  \<open>last_white [] = None\<close>
| \<open>last_white (x # xs) =
     (case last_white xs of
        Some i \<Rightarrow> Some (Suc i)
      | None \<Rightarrow> if is_white x then Some 0 else None)\<close>

definition truncate_spec300 :: "jsstr \<Rightarrow> jsstr" where
  \<open>truncate_spec300 text =
     (if length text \<le> 300 then text
      else case last_white (take 300 text) of
             Some i \<Rightarrow> if 240 \<le> i then take i text @ js ''...''
                       else take 300 text @ js ''...''
           | None \<Rightarrow> take 300 text @ js ''...'')\<close>

subsection \<open>formatText and formatSummary\<close>

text \<open>
  \<open>formatText\<close> and \<open>formatSummary\<close> each declare the same local function
  \<open>escapeHtml\<close>: five global replacements, applied in this order.
\<close>

definition local_escapeHtml :: "jsstr \<Rightarrow> jsstr" where
  \<open>local_escapeHtml unsafe =
     replaceAll SQUOTE (js ''&#039;'')
       (replaceAll DQUOTE (js ''&quot;'')
         (replaceAll GT (js ''&gt;'')
           (replaceAll LT (js ''&lt;'')
             (replaceAll AMP (js ''&amp;'') unsafe))))\<close>

definition formatText :: "jsstr \<Rightarrow> jsstr" where
  \<open>formatText text =
     (let escapedText = local_escapeHtml text;
          formattedText =
            replaceAll NL (js ''<br>'') (replaceNewlineRuns (js ''</p><p>'') escapedText)
      in if includes_str formattedText (js ''</p><p>'')
         then js ''<p>'' @ formattedText @ js ''</p>''
         else formattedText)\<close>

definition formatSummary :: "jsstr \<Rightarrow> jsstr" where
  \<open>formatSummary summary =
     (let escapedText = local_escapeHtml summary;
          paragraphs = filter (\<lambda>p. trim p \<noteq> []) (split_nn escapedText);
          formattedParagraphs =
            map (\<lambda>p. js ''<p>'' @ replaceAll NL (js ''<br>'') (trim p) @ js ''</p>'')
              paragraphs
      in join [] formattedParagraphs)\<close>

subsection \<open>formatScore\<close>

definition formatScore :: "number \<Rightarrow> jsstr" where
  \<open>formatScore score =
     (if less_than score D0_001 then toExponential 2 score
      else if less_than score 1 then toFixed 3 score
      else toFixed 2 score)\<close>

section \<open>Breadcrumb Builder and Source Link Resolver\<close>

text \<open>
  The method \<open>escapeHtml\<close> assigns the text to \<open>textContent\<close> of a fresh \<open>div\<close> and reads
  \<open>innerHTML\<close> back. The \<open>div\<close> then holds one text node, and the HTML fragment
  serialisation of a text node replaces, in this order, \<open>&\<close> by \<open>&amp;\<close>, U+00A0 by
  \<open>&nbsp;\<close>, \<open><\<close> by \<open>&lt;\<close> and \<open>>\<close> by \<open>&gt;\<close>; quotes are replaced in attribute
  values only.
\<close>

definition escapeHtml :: "jsstr \<Rightarrow> jsstr" where
  \<open>escapeHtml text =
     replaceAll GT (js ''&gt;'')
       (replaceAll LT (js ''&lt;'')
         (replaceAll NBSP (js ''&nbsp;'')
           (replaceAll AMP (js ''&amp;'') text)))\<close>

record metadata =
  h1 :: "jsstr option"
  h2 :: "jsstr option"
  h3 :: "jsstr option"
  source_path :: "jsstr option"

definition generateSourceLink :: "metadata option \<Rightarrow> jsstr option" where
  \<open>generateSourceLink md =
     (case md of
        None \<Rightarrow> None
      | Some m \<Rightarrow>
          if \<not> truthy (source_path m) then None
          else Some (js ''https://yandex.ru/support/market/ru/'' @ the (source_path m)))\<close>

text \<open>The headings pushed to \<open>breadcrumbParts\<close>: \<open>h1\<close>, \<open>h2\<close>, \<open>h3\<close>, each when truthy.\<close>

definition pushed :: "jsstr option \<Rightarrow> jsstr list" where
  \<open>pushed v = (if truthy v then [the v] else [])\<close>

definition breadcrumbParts :: "metadata \<Rightarrow> jsstr list" where
  \<open>breadcrumbParts m = pushed (h1 m) @ pushed (h2 m) @ pushed (h3 m)\<close>

definition standalone_link :: "jsstr \<Rightarrow> jsstr" where
  \<open>standalone_link sourceLink =
     js ''\<newline>                <a href="'' @ sourceLink @
     js ''" target="_blank" class="source-link-main" title="'' @ RU_OPEN_SOURCE @
     js ''">\<newline>                    <i class="fas fa-external-link-alt"></i>'' @
     js ''\<newline>                    '' @ RU_OPEN_SOURCE @
     js ''\<newline>                </a>\<newline>            ''\<close>

definition className :: "nat \<Rightarrow> jsstr" where
  \<open>className index = js ''breadcrumb-item breadcrumb-h'' @ decimal (index + 1)\<close>

definition link_segment :: "jsstr \<Rightarrow> nat \<Rightarrow> jsstr \<Rightarrow> jsstr" where
  \<open>link_segment sourceLink index part =
     js ''<a href="'' @ sourceLink @ js ''" target="_blank" class="'' @ className index @
     js '' breadcrumb-link" title="'' @ RU_OPEN_SOURCE @
     js ''">\<newline>                        '' @ escapeHtml part @
     js ''\<newline>                        <i class="fas fa-external-link-alt"></i>'' @
     js ''\<newline>                    </a>''\<close>

definition span_segment :: "nat \<Rightarrow> jsstr \<Rightarrow> jsstr" where
  \<open>span_segment index part =
     js ''<span class="'' @ className index @ js ''">'' @ escapeHtml part @ js ''</span>''\<close>

definition separator :: jsstr where
  \<open>separator = js ''<i class="fas fa-chevron-right breadcrumb-separator"></i>''\<close>

text \<open>The callback of \<open>breadcrumbParts.map\<close>, for a part and its index.\<close>

definition segment :: "jsstr option \<Rightarrow> nat \<Rightarrow> nat \<Rightarrow> jsstr \<Rightarrow> jsstr" where
  \<open>segment sourceLink n index part =
     (let isLast = (index = n - 1)
      in if truthy sourceLink \<and> isLast then link_segment (the sourceLink) index part
         else span_segment index part)\<close>

definition generateBreadcrumbs :: "metadata option \<Rightarrow> jsstr option \<Rightarrow> jsstr option" where
  \<open>generateBreadcrumbs md sourceLink =
     (case md of
        None \<Rightarrow> None
      | Some m \<Rightarrow>
          let parts = breadcrumbParts m
          in if length parts = 0
             then (if truthy sourceLink then Some (standalone_link (the sourceLink)) else None)
             else Some (join separator
                    (map (\<lambda>(index, part). segment sourceLink (length parts) index part)
                       (enumerate 0 parts))))\<close>

section \<open>Result Renderer\<close>

text \<open>
  A response body and its results, with the shape the search service gives them: the
  content a string, the score a number or absent, the metadata an object or absent, its
  fields strings or absent.
\<close>

record search_result =
  content :: jsstr
  score :: "number option"
  metadata :: "metadata option"

record response_data =
  success :: bool
  results :: "search_result list"
  summary :: "jsstr option"
  error :: "jsstr option"

text \<open>The score badge of \<open>createResultElement\<close>: the markup of
  \<open>result.score !== undefined ? ... : ''\<close>, where an absent score is \<open>None\<close>.\<close>

definition score_badge :: "number option \<Rightarrow> jsstr" where
  \<open>score_badge sc =
     (case sc of
        Some x \<Rightarrow>
          js ''\<newline>                    <div class="result-score" title="'' @
          [0x41E, 0x446, 0x435, 0x43D, 0x43A, 0x430, 0x20, 0x440, 0x435, 0x43B, 0x435,
           0x432, 0x430, 0x43D, 0x442, 0x43D, 0x43E, 0x441, 0x442, 0x438, 0x20, 0x28,
           0x447, 0x435, 0x43C, 0x20, 0x43C, 0x435, 0x43D, 0x44C, 0x448, 0x435, 0x2C,
           0x20, 0x442, 0x435, 0x43C, 0x20, 0x43B, 0x443, 0x447, 0x448, 0x435, 0x29] @
          js ''">\<newline>                        <i class="fas fa-chart-line"></i>'' @
          js ''\<newline>                        <span class="score-value">'' @
          formatScore x @
          js ''</span>\<newline>                    </div>\<newline>                ''
      | None \<Rightarrow> [])\<close>

text \<open>
  \<open>createResultElement\<close> returns a \<open>div\<close> of class \<open>result-item\<close>; the model is the
  markup assigned to its \<open>innerHTML\<close>. The argument \<open>number\<close> reaches the console and the
  delay of the entrance animation only.
\<close>

definition createResultElement :: "search_result \<Rightarrow> nat \<Rightarrow> jsstr" where
  \<open>createResultElement result number =
     (let sourceLink = generateSourceLink (metadata result);
          breadcrumbs = generateBreadcrumbs (metadata result) sourceLink
      in js ''\<newline>            <div class="result-top">\<newline>                '' @
         (if truthy breadcrumbs
          then js ''\<newline>                    <div class="result-breadcrumbs">'' @
               js ''\<newline>                        '' @ the breadcrumbs @
               js ''\<newline>                    </div>\<newline>                ''
          else []) @
         js ''\<newline>                '' @
         score_badge (score result) @
         js ''\<newline>            </div>\<newline>            <div class="result-content">'' @
         js ''\<newline>                '' @
         formatText (truncateText (content result) 300) @
         js ''\<newline>            </div>\<newline>        '')\<close>

section \<open>The page\<close>

text \<open>
  The URL of the page, as \<open>new URL(window.location)\<close> parses it: the search parameters are
  the list of name-value pairs of \<open>url.searchParams\<close>, in order and with duplicates.
\<close>

record url =
  origin :: jsstr
  pathname :: jsstr
  searchParams :: "(jsstr \<times> jsstr) list"
  hash :: jsstr

text \<open>
  The methods of \<open>URLSearchParams\<close> take their arguments as USVString: an unpaired
  surrogate code unit becomes U+FFFD, everything else stays.
\<close>

definition is_high :: "unit16 \<Rightarrow> bool" where
  \<open>is_high c \<longleftrightarrow> 0xD800 \<le> c \<and> c \<le> 0xDBFF\<close>

definition is_low :: "unit16 \<Rightarrow> bool" where
  \<open>is_low c \<longleftrightarrow> 0xDC00 \<le> c \<and> c \<le> 0xDFFF\<close>

fun toUSVString :: "jsstr \<Rightarrow> jsstr" where
  \<open>toUSVString [] = []\<close>
| \<open>toUSVString [c] = (if is_high c \<or> is_low c then [0xFFFD] else [c])\<close>
| \<open>toUSVString (c # d # cs) =
     (if is_high c \<and> is_low d then c # d # toUSVString cs
      else if is_high c \<or> is_low c then 0xFFFD # toUSVString (d # cs)
      else c # toUSVString (d # cs))\<close>

text \<open>\<open>searchParams.set(name, value)\<close>: the first pair of that name takes the value and
  the other pairs of that name go; without such a pair, a new one is appended.\<close>

fun set_first :: "jsstr \<Rightarrow> jsstr \<Rightarrow> (jsstr \<times> jsstr) list \<Rightarrow> (jsstr \<times> jsstr) list" where
  \<open>set_first name v [] = [(name, v)]\<close>
| \<open>set_first name v (p # ps) =
     (if fst p = name then (name, v) # filter (\<lambda>p'. fst p' \<noteq> name) ps
      else p # set_first name v ps)\<close>

definition searchParams_set :: "jsstr \<Rightarrow> jsstr \<Rightarrow> url \<Rightarrow> url" where
  \<open>searchParams_set name v u =
     u\<lparr>searchParams := set_first (toUSVString name) (toUSVString v) (searchParams u)\<rparr>\<close>

definition searchParams_delete :: "jsstr \<Rightarrow> url \<Rightarrow> url" where
  \<open>searchParams_delete name u =
     u\<lparr>searchParams := filter (\<lambda>p. fst p \<noteq> toUSVString name) (searchParams u)\<rparr>\<close>

text \<open>\<open>searchParams.get(name)\<close>: the value of the first pair of that name.\<close>

definition searchParams_get :: "jsstr \<Rightarrow> url \<Rightarrow> jsstr option" where
  \<open>searchParams_get name u = map_of (searchParams u) (toUSVString name)\<close>

text \<open>
  The state that \<open>SearchApp\<close> reads and writes: the elements it holds (the \<open>hidden\<close>
  class of an element as a flag, the children of \<open>resultsList\<close> as the list of their
  markup), its flag \<open>isSearching\<close>, the location of the window, and the entries pushed to
  the session history (the newest first, each with its state object \<open>{query}\<close>). \<open>pending\<close>
  is the network: the queries of the \<open>POST /search\<close> requests that were issued and have
  not settled, the oldest first. Timers, animation styles, scrolling and the console are
  left out.
\<close>

record page =
  searchInput_value :: jsstr
  searchInput_disabled :: bool
  searchButton_disabled :: bool
  searchButton_innerHTML :: jsstr
  loadingSpinner_hidden :: bool
  resultsContainer_hidden :: bool
  resultsList_children :: "jsstr list"
  resultsCount_textContent :: jsstr
  summarySection_hidden :: bool
  summaryContent_innerHTML :: jsstr
  noResults_hidden :: bool
  errorMessage_hidden :: bool
  errorText_textContent :: jsstr
  shareButton_hidden :: bool
  isSearching :: bool
  location :: url
  history :: "(jsstr \<times> url) list"
  pending :: "jsstr list"

definition hideAllSections :: "page \<Rightarrow> page" where
  \<open>hideAllSections s =
     s\<lparr>loadingSpinner_hidden := True, resultsContainer_hidden := True,
       summarySection_hidden := True, noResults_hidden := True,
       errorMessage_hidden := True\<rparr>\<close>

definition showLoading :: "page \<Rightarrow> page" where
  \<open>showLoading s = (hideAllSections s)\<lparr>loadingSpinner_hidden := False\<rparr>\<close>

definition hideLoading :: "page \<Rightarrow> page" where
  \<open>hideLoading s = s\<lparr>loadingSpinner_hidden := True\<rparr>\<close>

definition showError :: "jsstr \<Rightarrow> page \<Rightarrow> page" where
  \<open>showError message s =
     (hideAllSections s)\<lparr>errorText_textContent := message, errorMessage_hidden := False\<rparr>\<close>

definition disableSearch :: "page \<Rightarrow> page" where
  \<open>disableSearch s =
     s\<lparr>searchButton_disabled := True, searchInput_disabled := True,
       searchButton_innerHTML :=
         js ''\<newline>            <div class="spinner" style="width: 16px; height: 16px; '' @
         js ''border-width: 2px;"></div>\<newline>            <span>'' @ RU_SEARCH @
         js ''...</span>\<newline>        ''\<rparr>\<close>

definition enableSearch :: "page \<Rightarrow> page" where
  \<open>enableSearch s =
     s\<lparr>searchButton_disabled := False, searchInput_disabled := False,
       searchButton_innerHTML :=
         js ''\<newline>            <i class="fas fa-search"></i>\<newline>            <span>'' @
         RU_SEARCH @ js ''</span>\<newline>        ''\<rparr>\<close>

definition displaySummary :: "jsstr \<Rightarrow> page \<Rightarrow> page" where
  \<open>displaySummary text s =
     s\<lparr>summaryContent_innerHTML := formatSummary text, summarySection_hidden := False\<rparr>\<close>

text \<open>The body of \<open>data.results.forEach\<close>: one element appended to \<open>resultsList\<close>.\<close>

definition appendResult :: "page \<Rightarrow> nat \<times> search_result \<Rightarrow> page" where
  \<open>appendResult s ir =
     (case ir of (index, result) \<Rightarrow>
        s\<lparr>resultsList_children :=
            resultsList_children s @ [createResultElement result (index + 1)]\<rparr>)\<close>

definition displayResults :: "response_data \<Rightarrow> page \<Rightarrow> page" where
  \<open>displayResults data s =
     (let s1 = hideAllSections s
      in if length (results data) = 0 then s1\<lparr>noResults_hidden := False\<rparr>
         else
           let s2 = (if truthy (summary data) then displaySummary (the (summary data)) s1
                     else s1);
               s3 = s2\<lparr>resultsCount_textContent := decimal (length (results data))\<rparr>;
               s4 = s3\<lparr>resultsList_children := []\<rparr>;
               s5 = foldl appendResult s4 (enumerate 0 (results data))
           in s5\<lparr>resultsContainer_hidden := False\<rparr>)\<close>

section \<open>URL State Synchronizer and Share Controller\<close>

definition Q :: jsstr where
  \<open>Q = js ''q''\<close>

definition updateUrl :: "jsstr \<Rightarrow> page \<Rightarrow> page" where
  \<open>updateUrl query s =
     (let u = (if query \<noteq> [] then searchParams_set Q query (location s)
               else searchParams_delete Q (location s))
      in s\<lparr>location := u, history := (query, u) # history s\<rparr>)\<close>

text \<open>\<open>getShareableUrl\<close> returns the serialisation of the URL built here.\<close>

definition getShareableUrl :: "jsstr \<Rightarrow> page \<Rightarrow> url" where
  \<open>getShareableUrl query s =
     searchParams_set Q query
       \<lparr>origin = origin (location s), pathname = pathname (location s),
        searchParams = [], hash = []\<rparr>\<close>

section \<open>Search Session Controller\<close>

definition MSG_EMPTY_QUERY :: jsstr where
  \<open>MSG_EMPTY_QUERY =
     [0x41F, 0x43E, 0x436, 0x430, 0x43B, 0x443, 0x439, 0x441, 0x442, 0x430, 0x2C, 0x20,
      0x432, 0x432, 0x435, 0x434, 0x438, 0x442, 0x435, 0x20, 0x437, 0x430, 0x43F, 0x440,
      0x43E, 0x441, 0x20, 0x434, 0x43B, 0x44F, 0x20, 0x43F, 0x43E, 0x438, 0x441, 0x43A,
      0x430]\<close>

definition MSG_SEARCH_FAILED :: jsstr where
  \<open>MSG_SEARCH_FAILED =
     [0x41F, 0x440, 0x43E, 0x438, 0x437, 0x43E, 0x448, 0x43B, 0x430, 0x20, 0x43E, 0x448,
      0x438, 0x431, 0x43A, 0x430, 0x20, 0x43F, 0x440, 0x438, 0x20, 0x43F, 0x43E, 0x438,
      0x441, 0x43A, 0x435]\<close>

definition MSG_UNKNOWN :: jsstr where
  \<open>MSG_UNKNOWN =
     [0x41D, 0x435, 0x438, 0x437, 0x432, 0x435, 0x441, 0x442, 0x43D, 0x430, 0x44F, 0x20,
      0x43E, 0x448, 0x438, 0x431, 0x43A, 0x430]\<close>

text \<open>\<open>queryFromUrl || this.searchInput.value.trim()\<close>.\<close>

definition effective_query :: "jsstr option \<Rightarrow> page \<Rightarrow> jsstr" where
  \<open>effective_query queryFromUrl s =
     (if truthy queryFromUrl then the queryFromUrl else trim (searchInput_value s))\<close>

text \<open>
  \<open>performSearch\<close> is an \<open>async\<close> function. \<open>performSearch\<close> below is its synchronous
  part, which runs when it is called and ends with the \<open>fetch\<close> issued (or with an early
  return); \<open>performSearch_resume\<close> is the rest, which runs when the request has settled.
\<close>

definition performSearch :: "jsstr option \<Rightarrow> page \<Rightarrow> page" where
  \<open>performSearch queryFromUrl s =
     (let query = effective_query queryFromUrl s
      in if query = [] then showError MSG_EMPTY_QUERY s
         else if isSearching s then s
         else
           let s1 = (if truthy queryFromUrl then s\<lparr>searchInput_value := query\<rparr> else s);
               s2 = updateUrl query s1;
               s3 = s2\<lparr>isSearching := True\<rparr>;
               s4 = showLoading s3;
               s5 = disableSearch s4
           in s5\<lparr>pending := pending s5 @ [query]\<rparr>)\<close>

text \<open>
  How a request settles: \<open>fetch\<close> rejects (a network error), \<open>response.json()\<close> rejects
  (a body that is not JSON), each with the message of the error thrown, or a body arrives
  with \<open>response.ok\<close>. The function awaits twice, first \<open>fetch\<close>, then \<open>json()\<close>; it
  changes nothing in between, so the two are one step here.
\<close>

datatype outcome =
    FetchRejected jsstr
  | JsonRejected jsstr
  | Responded bool response_data

text \<open>\<open>data.error || fallback\<close>.\<close>

definition error_or :: "response_data \<Rightarrow> jsstr \<Rightarrow> jsstr" where
  \<open>error_or data message = (if truthy (error data) then the (error data) else message)\<close>

text \<open>The \<open>try\<close> block after the request has settled: the state it leaves and the
  message of the error it throws, if it throws.\<close>

definition try_block :: "outcome \<Rightarrow> page \<Rightarrow> page \<times> jsstr option" where
  \<open>try_block out s =
     (case out of
        FetchRejected message \<Rightarrow> (s, Some message)
      | JsonRejected message \<Rightarrow> (s, Some message)
      | Responded ok data \<Rightarrow>
          if \<not> ok then (s, Some (error_or data MSG_SEARCH_FAILED))
          else if success data
          then ((displayResults data s)\<lparr>shareButton_hidden := False\<rparr>, None)
          else (s, Some (error_or data MSG_UNKNOWN)))\<close>

definition catch_block :: "page \<times> jsstr option \<Rightarrow> page" where
  \<open>catch_block r =
     (case r of (s, Some message) \<Rightarrow> showError message s | (s, None) \<Rightarrow> s)\<close>

definition finally_block :: "page \<Rightarrow> page" where
  \<open>finally_block s = enableSearch (hideLoading (s\<lparr>isSearching := False\<rparr>))\<close>

definition performSearch_resume :: "outcome \<Rightarrow> page \<Rightarrow> page" where
  \<open>performSearch_resume out s = finally_block (catch_block (try_block out s))\<close>

definition loadFromUrl :: "page \<Rightarrow> page" where
  \<open>loadFromUrl s =
     (let query = searchParams_get Q (location s)
      in if truthy query then performSearch query s else s)\<close>

text \<open>
  The events of the page: a click on the search button or Enter in the input field; the
  call of \<open>loadFromUrl\<close> at start-up; a back or forward navigation, which sets the location
  and fires \<open>popstate\<close>; the user typing into the input field; and the oldest pending
  request settling, which resumes its \<open>performSearch\<close>.
\<close>

datatype event =
    Submit
  | Startup
  | PopState url
  | Typed jsstr
  | Settled outcome

fun step :: "page \<Rightarrow> event \<Rightarrow> page" where
  \<open>step s Submit = performSearch None s\<close>
| \<open>step s Startup = loadFromUrl s\<close>
| \<open>step s (PopState u) = loadFromUrl (s\<lparr>location := u\<rparr>)\<close>
| \<open>step s (Typed v) = s\<lparr>searchInput_value := v\<rparr>\<close>
| \<open>step s (Settled out) =
     (case pending s of
        [] \<Rightarrow> s
      | query # rest \<Rightarrow> performSearch_resume out (s\<lparr>pending := rest\<rparr>))\<close>

text \<open>The events that neither navigate nor settle a request.\<close>

fun quiet :: "event \<Rightarrow> bool" where
  \<open>quiet Submit \<longleftrightarrow> True\<close>
| \<open>quiet Startup \<longleftrightarrow> True\<close>
| \<open>quiet (Typed v) \<longleftrightarrow> True\<close>
| \<open>quiet (PopState u) \<longleftrightarrow> False\<close>
| \<open>quiet (Settled out) \<longleftrightarrow> False\<close>

definition run :: "page \<Rightarrow> event list \<Rightarrow> page" where
  \<open>run s evs = foldl step s evs\<close>

text \<open>A page as the constructor of \<open>SearchApp\<close> leaves it, before \<open>loadFromUrl\<close>: not
  searching, nothing requested.\<close>

definition constructed :: "page \<Rightarrow> bool" where
  \<open>constructed s \<longleftrightarrow> \<not> isSearching s \<and> pending s = []\<close>

text \<open>A concrete page for the examples: \<open>https://example.org/search?lang=ru&q=old\<close>.\<close>

definition example_page :: page where
  \<open>example_page =
     \<lparr>searchInput_value = [], searchInput_disabled = False, searchButton_disabled = False,
      searchButton_innerHTML = [], loadingSpinner_hidden = True,
      resultsContainer_hidden = True, resultsList_children = [],
      resultsCount_textContent = [], summarySection_hidden = True,
      summaryContent_innerHTML = [], noResults_hidden = True, errorMessage_hidden = True,
      errorText_textContent = [], shareButton_hidden = True, isSearching = False,
      location = \<lparr>origin = js ''https://example.org'', pathname = js ''/search'',
                  searchParams = [(js ''lang'', js ''ru''), (js ''q'', js ''old'')],
                  hash = []\<rparr>,
      history = [], pending = []\<rparr>\<close>

text \<open>The single-flight invariant: searching exactly while a request is pending, and at
  most one request pending.\<close>

definition single_flight :: "page \<Rightarrow> bool" where
  "single_flight s \<longleftrightarrow> (isSearching s \<longleftrightarrow> pending s \<noteq> []) \<and> length (pending s) \<le> 1"

text \<open>The state a search session leaves behind: not searching, the loading indicator
  hidden, both search controls enabled.\<close>

definition cleaned_up :: "page \<Rightarrow> bool" where
  "cleaned_up s \<longleftrightarrow>
     \<not> isSearching s \<and> loadingSpinner_hidden s \<and>
     \<not> searchButton_disabled s \<and> \<not> searchInput_disabled s"

text \<open>Two response bodies for the examples.\<close>

definition ok_response :: response_data where
  "ok_response =
     \<lparr>success = True,
      results = [\<lparr>content = js ''text'', score = None, metadata = None\<rparr>],
      summary = None, error = None\<rparr>"

definition failed_response :: response_data where
  "failed_response = \<lparr>success = False, results = [], summary = None, error = None\<rparr>"

section \<open>Markup that carries no markup of its input\<close>

text \<open>
  \<open>tokenised plain toks s\<close>: the string \<open>s\<close> splits, from the left, into units that
  satisfy \<open>plain\<close> and strings taken from \<open>toks\<close>. \<open>safe_markup\<close> is this with the units
  other than \<open><\<close>, \<open>>\<close>, \<open>&\<close> and the two quotes as plain units, and the five character
  references and the tags \<open><p>\<close>, \<open></p>\<close>, \<open><br>\<close> as tokens: every \<open><\<close> and \<open>>\<close> of such a
  string belongs to one of the three tags, every \<open>&\<close> starts a character reference, and
  no quote occurs. \<open>safe_text\<close> is the form of element content without any tag: quotes
  are plain there, and the character references are those of the DOM serialisation.
\<close>

inductive tokenised :: "(unit16 \<Rightarrow> bool) \<Rightarrow> jsstr set \<Rightarrow> jsstr \<Rightarrow> bool"
  for plain :: "unit16 \<Rightarrow> bool" and toks :: "jsstr set" where
  tokenised_Nil: "tokenised plain toks []"
| tokenised_plain: "plain c \<Longrightarrow> tokenised plain toks s \<Longrightarrow> tokenised plain toks (c # s)"
| tokenised_token: "t \<in> toks \<Longrightarrow> tokenised plain toks s \<Longrightarrow> tokenised plain toks (t @ s)"

definition entities :: "jsstr list" where
  \<open>entities = [js ''&amp;'', js ''&lt;'', js ''&gt;'', js ''&quot;'', js ''&#039;'']\<close>

definition tags :: "jsstr list" where
  \<open>tags = [js ''<p>'', js ''</p>'', js ''<br>'']\<close>

definition safe_markup :: "jsstr \<Rightarrow> bool" where
  \<open>safe_markup s \<longleftrightarrow>
     tokenised (\<lambda>c. c \<notin> {LT, GT, AMP, DQUOTE, SQUOTE}) (set (entities @ tags)) s\<close>

definition dom_entities :: "jsstr list" where
  \<open>dom_entities = [js ''&amp;'', js ''&nbsp;'', js ''&lt;'', js ''&gt;'']\<close>

definition safe_text :: "jsstr \<Rightarrow> bool" where
  \<open>safe_text s \<longleftrightarrow> tokenised (\<lambda>c. c \<notin> {LT, GT, AMP}) (set dom_entities) s\<close>



section \<open>Properties\<close>

subsection \<open>Decimal numerals\<close>

lemma decimal_small: "n < 10 \<Longrightarrow> decimal n = [digit n]"
  by (subst decimal.simps) simp

subsection \<open>lastIndexOf\<close>

lemma lastIndexOf_range: "- 1 \<le> lastIndexOf s c \<and> lastIndexOf s c < int (length s)"
  by (induction s) (auto simp: Let_def)

lemma lastIndexOf_none: "lastIndexOf s c = - 1 \<longleftrightarrow> c \<notin> set s"
proof (induction s)
  case Nil
  then show ?case by simp
next
  case (Cons x xs)
  from lastIndexOf_range [of xs c] have "lastIndexOf xs c = - 1 \<or> 0 \<le> lastIndexOf xs c"
    by arith
  with Cons show ?case by (auto simp: Let_def)
qed

lemma lastIndexOf_neg: "lastIndexOf s c < 0 \<longleftrightarrow> c \<notin> set s"
  using lastIndexOf_range [of s c] lastIndexOf_none [of s c] by auto

lemma lastIndexOf_last:
  assumes "i < length s" and "s ! i = c" and "\<forall>j. i < j \<and> j < length s \<longrightarrow> s ! j \<noteq> c"
  shows "lastIndexOf s c = int i"
  using assms
proof (induction s arbitrary: i)
  case Nil
  then show ?case by simp
next
  case (Cons x xs)
  show ?case
  proof (cases i)
    case 0
    have "c \<notin> set xs"
    proof
      assume "c \<in> set xs"
      then obtain k where k: "k < length xs" "xs ! k = c"
        by (auto simp: in_set_conv_nth)
      with Cons.prems(3) 0 have "(x # xs) ! Suc k \<noteq> c" by auto
      with k show False by simp
    qed
    then have "lastIndexOf xs c < 0" by (simp add: lastIndexOf_neg)
    with 0 Cons.prems(2) show ?thesis by (simp add: Let_def)
  next
    case (Suc k)
    have "lastIndexOf xs c = int k"
    proof (rule Cons.IH)
      show "k < length xs" using Cons.prems(1) Suc by simp
      show "xs ! k = c" using Cons.prems(2) Suc by simp
      show "\<forall>j. k < j \<and> j < length xs \<longrightarrow> xs ! j \<noteq> c"
      proof (intro allI impI)
        fix j assume "k < j \<and> j < length xs"
        with Cons.prems(3) Suc have "(x # xs) ! Suc j \<noteq> c" by auto
        then show "xs ! j \<noteq> c" by simp
      qed
    qed
    with Suc show ?thesis by (simp add: Let_def)
  qed
qed

lemma lastIndexOf_low:
  assumes "\<forall>j. b < j \<and> j < length s \<longrightarrow> s ! j \<noteq> c"
  shows "lastIndexOf s c \<le> int b"
  using assms
proof (induction s arbitrary: b)
  case Nil
  then show ?case by simp
next
  case (Cons x xs)
  show ?case
  proof (cases b)
    case 0
    have "c \<notin> set xs"
    proof
      assume "c \<in> set xs"
      then obtain k where k: "k < length xs" "xs ! k = c"
        by (auto simp: in_set_conv_nth)
      with Cons.prems 0 have "(x # xs) ! Suc k \<noteq> c" by auto
      with k show False by simp
    qed
    then have "lastIndexOf xs c < 0" by (simp add: lastIndexOf_neg)
    with 0 show ?thesis by (simp add: Let_def)
  next
    case (Suc k)
    have "lastIndexOf xs c \<le> int k"
    proof (rule Cons.IH, intro allI impI)
      fix j assume "k < j \<and> j < length xs"
      with Cons.prems Suc have "(x # xs) ! Suc j \<noteq> c" by auto
      then show "xs ! j \<noteq> c" by simp
    qed
    with Suc show ?thesis by (simp add: Let_def)
  qed
qed

subsection \<open>Truncation\<close>

lemma truncateText_short: "length t \<le> n \<Longrightarrow> truncateText t n = t"
  by (simp add: truncateText_def)

lemma truncateText_break:
  assumes "300 < length t" and "240 < i" and "i < 300" and "t ! i = SPACE"
    and "\<forall>j. i < j \<and> j < 300 \<longrightarrow> t ! j \<noteq> SPACE"
  shows "truncateText t 300 = take i t @ js ''...''"
proof -
  have "lastIndexOf (take 300 t) SPACE = int i"
    using assms by (intro lastIndexOf_last) auto
  with assms show ?thesis
    by (simp add: truncateText_def substring0_def Let_def min_def)
qed

lemma truncateText_hard:
  assumes "300 < length t" and "\<forall>j. 240 < j \<and> j < 300 \<longrightarrow> t ! j \<noteq> SPACE"
  shows "truncateText t 300 = take 300 t @ js ''...''"
proof -
  have "lastIndexOf (take 300 t) SPACE \<le> int 240"
    using assms by (intro lastIndexOf_low) auto
  with assms show ?thesis
    by (simp add: truncateText_def substring0_def Let_def)
qed

text \<open>
  Claim C6, as amended. \<open>truncateText(content, 300)\<close> returns a content of at most 300
  code units unchanged. A longer content is cut to its first 300 units; when the last
  space character (U+0020) among them stands at an index greater than 240, the result is
  the text before that space, and when no space stands at an index from 241 to 299 the
  result is all 300 units; in both cases \<open>...\<close> is appended.
\<close>

theorem truncateText_rule:
  "(length t \<le> 300 \<longrightarrow> truncateText t 300 = t) \<and>
   (300 < length t \<longrightarrow>
      (\<forall>i. 240 < i \<and> i < 300 \<and> t ! i = SPACE \<and> (\<forall>j. i < j \<and> j < 300 \<longrightarrow> t ! j \<noteq> SPACE)
         \<longrightarrow> truncateText t 300 = take i t @ js ''...'') \<and>
      ((\<forall>j. 240 < j \<and> j < 300 \<longrightarrow> t ! j \<noteq> SPACE)
         \<longrightarrow> truncateText t 300 = take 300 t @ js ''...''))"
  using truncateText_short [of t 300] truncateText_break [of t] truncateText_hard [of t]
  by blast

text \<open>
  The rule at a short text, at a 301-unit text whose only space is at index 250, and at a
  301-unit text without any space.
\<close>

theorem truncateText_rule_witness:
  "truncateText (js ''short text'') 300 = js ''short text'' \<and>
   truncateText (replicate 250 0x61 @ [SPACE] @ replicate 50 0x61) 300
     = replicate 250 0x61 @ js ''...'' \<and>
   truncateText (replicate 301 0x61) 300 = replicate 300 0x61 @ js ''...''"
proof (intro conjI)
  show "truncateText (js ''short text'') 300 = js ''short text''"
    using truncateText_rule [of "js ''short text''"] by (simp add: js_def)
next
  let ?x = "replicate 250 (0x61::unit16) @ [SPACE] @ replicate 50 0x61"
  have len: "300 < length ?x" by simp
  have sp: "?x ! 250 = SPACE" by (simp add: nth_append)
  have after: "\<forall>j. 250 < j \<and> j < 300 \<longrightarrow> ?x ! j \<noteq> SPACE"
    by (auto simp: nth_append nth_Cons' SPACE_def)
  have "240 < (250::nat) \<and> (250::nat) < 300 \<and> ?x ! 250 = SPACE \<and>
      (\<forall>j. 250 < j \<and> j < 300 \<longrightarrow> ?x ! j \<noteq> SPACE)"
    using sp after by simp
  with truncateText_rule [of ?x] len
  have "truncateText ?x 300 = take 250 ?x @ js ''...''" by blast
  then show "truncateText ?x 300 = replicate 250 0x61 @ js ''...''" by simp
next
  let ?y = "replicate 301 (0x61::unit16)"
  have "\<forall>j. 240 < j \<and> j < 300 \<longrightarrow> ?y ! j \<noteq> SPACE" by (simp add: SPACE_def)
  with truncateText_rule [of ?y]
  have "truncateText ?y 300 = take 300 ?y @ js ''...''" by simp
  then show "truncateText ?y 300 = replicate 300 0x61 @ js ''...''" by simp
qed

lemma last_white_None: "last_white s = None \<longleftrightarrow> (\<forall>c \<in> set s. \<not> is_white c)"
  by (induction s) (auto split: option.splits)

lemma last_white_last:
  assumes "i < length s" and "is_white (s ! i)"
    and "\<forall>j. i < j \<and> j < length s \<longrightarrow> \<not> is_white (s ! j)"
  shows "last_white s = Some i"
  using assms
proof (induction s arbitrary: i)
  case Nil
  then show ?case by simp
next
  case (Cons x xs)
  show ?case
  proof (cases i)
    case 0
    have "\<forall>c \<in> set xs. \<not> is_white c"
    proof
      fix c assume "c \<in> set xs"
      then obtain k where k: "k < length xs" "xs ! k = c"
        by (auto simp: in_set_conv_nth)
      with Cons.prems(3) 0 have "\<not> is_white ((x # xs) ! Suc k)" by auto
      with k show "\<not> is_white c" by simp
    qed
    then have "last_white xs = None" by (simp add: last_white_None)
    with 0 Cons.prems(2) show ?thesis by simp
  next
    case (Suc k)
    have "last_white xs = Some k"
      using Cons.prems Suc by (intro Cons.IH) auto
    with Suc show ?thesis by simp
  qed
qed

text \<open>
  Claim C6 as stated breaks at a boundary "at or after" position 240. For a 301-unit
  text whose only space is at index 240 the code keeps all 300 units, where the stated
  rule cuts at 240.
\<close>

theorem truncateText_boundary_counterexample:
  "truncateText (replicate 240 0x61 @ [SPACE] @ replicate 60 0x61) 300
     = replicate 240 0x61 @ [SPACE] @ replicate 59 0x61 @ js ''...'' \<and>
   truncate_spec300 (replicate 240 0x61 @ [SPACE] @ replicate 60 0x61)
     = replicate 240 0x61 @ js ''...'' \<and>
   truncateText (replicate 240 0x61 @ [SPACE] @ replicate 60 0x61) 300
     \<noteq> truncate_spec300 (replicate 240 0x61 @ [SPACE] @ replicate 60 0x61)"
proof -
  let ?x = "replicate 240 (0x61::unit16) @ [SPACE] @ replicate 60 0x61"
  have len: "300 < length ?x" by simp
  have "\<forall>j. 240 < j \<and> j < 300 \<longrightarrow> ?x ! j \<noteq> SPACE"
    by (auto simp: nth_append nth_Cons' SPACE_def)
  with len have "truncateText ?x 300 = take 300 ?x @ js ''...''"
    by (rule truncateText_hard)
  then have code: "truncateText ?x 300
      = replicate 240 0x61 @ [SPACE] @ replicate 59 0x61 @ js ''...''"
    by simp
  have "last_white (take 300 ?x) = Some 240"
  proof (rule last_white_last)
    show "240 < length (take 300 ?x)" by simp
    show "is_white (take 300 ?x ! 240)" by (simp add: nth_append is_white_def SPACE_def)
    show "\<forall>j. 240 < j \<and> j < length (take 300 ?x) \<longrightarrow> \<not> is_white (take 300 ?x ! j)"
      by (auto simp: nth_append nth_Cons' is_white_def)
  qed
  then have spec: "truncate_spec300 ?x = replicate 240 0x61 @ js ''...''"
    by (simp add: truncate_spec300_def)
  have "length (truncateText ?x 300) \<noteq> length (truncate_spec300 ?x)"
    unfolding code spec by (simp add: js_def)
  then have "truncateText ?x 300 \<noteq> truncate_spec300 ?x" by auto
  with code spec show ?thesis by blast
qed

subsection \<open>Escaping\<close>




lemma tokenised_inv:
  assumes "tokenised p T s"
  shows "s = [] \<or> (\<exists>c s'. s = c # s' \<and> p c \<and> tokenised p T s')
       \<or> (\<exists>t s'. s = t @ s' \<and> t \<in> T \<and> tokenised p T s')"
  using assms by (rule tokenised.cases) auto










lemmas unit_defs = SPACE_def NL_def AMP_def LT_def GT_def DQUOTE_def SQUOTE_def NBSP_def



















lemma split_nn_nonempty: "split_nn s \<noteq> []"
  by (induction s rule: split_nn.induct) (auto split: list.splits)


lemma split_nn_Cons2:
  "d \<noteq> NL \<Longrightarrow> split_nn (c # d # s) = (c # hd (split_nn (d # s))) # tl (split_nn (d # s))"
  using split_nn_nonempty [of "d # s"]
  by (auto split: list.splits)







lemma not_safe_markup_script: "\<not> safe_markup (js ''<script>'')"
proof
  assume "safe_markup (js ''<script>'')"
  from tokenised_inv [OF this [unfolded safe_markup_def]] show False
    by (auto simp: js_def entities_def tags_def unit_defs)
qed

lemma not_safe_markup_quote: "\<not> safe_markup [DQUOTE]"
proof
  assume "safe_markup [DQUOTE]"
  from tokenised_inv [OF this [unfolded safe_markup_def]] show False
    by (auto simp: js_def entities_def tags_def unit_defs)
qed

lemma not_safe_text_tag: "\<not> safe_text (js ''<b>'')"
proof
  assume "safe_text (js ''<b>'')"
  from tokenised_inv [OF this [unfolded safe_text_def]] show False
    by (auto simp: js_def dom_entities_def unit_defs)
qed


subsection \<open>Breadcrumbs\<close>











subsection \<open>performSearch\<close>

lemma performSearch_rejected:
  "effective_query a s = [] \<Longrightarrow> performSearch a s = showError MSG_EMPTY_QUERY s"
  by (simp add: performSearch_def)

lemma performSearch_dropped:
  "effective_query a s \<noteq> [] \<Longrightarrow> isSearching s \<Longrightarrow> performSearch a s = s"
  by (simp add: performSearch_def)

lemma showError_frame:
  "isSearching (showError m s) = isSearching s"
  "pending (showError m s) = pending s"
  "location (showError m s) = location s"
  "history (showError m s) = history s"
  by (simp_all add: showError_def hideAllSections_def)

lemma performSearch_accepted:
  assumes "effective_query a s \<noteq> []" and "\<not> isSearching s"
  shows "isSearching (performSearch a s)"
    and "pending (performSearch a s) = pending s @ [effective_query a s]"
    and "location (performSearch a s) = searchParams_set Q (effective_query a s) (location s)"
    and "searchInput_disabled (performSearch a s)"
    and "searchButton_disabled (performSearch a s)"
    and "\<not> loadingSpinner_hidden (performSearch a s)"
  using assms
  by (simp_all add: performSearch_def Let_def updateUrl_def showLoading_def
      hideAllSections_def disableSearch_def)

lemma map_of_set_first: "map_of (set_first name v ps) name = Some v"
  by (induction ps) auto

lemma filter_set_first:
  "filter (\<lambda>p. fst p \<noteq> name) (set_first name v ps) = filter (\<lambda>p. fst p \<noteq> name) ps"
  by (induction ps) auto

lemma toUSVString_id: "\<forall>c \<in> set s. \<not> is_high c \<and> \<not> is_low c \<Longrightarrow> toUSVString s = s"
  by (induction s rule: toUSVString.induct) auto

lemma toUSVString_Q: "toUSVString Q = Q"
  by (simp add: Q_def js_def is_high_def is_low_def)

lemma searchParams_get_set:
  "searchParams_get name (searchParams_set name v u) = Some (toUSVString v)"
  by (simp add: searchParams_get_def searchParams_set_def map_of_set_first)

subsection \<open>After the request has settled\<close>

lemma finally_block_cleanup:
  "\<not> isSearching (finally_block s)"
  "loadingSpinner_hidden (finally_block s)"
  "\<not> searchButton_disabled (finally_block s)"
  "\<not> searchInput_disabled (finally_block s)"
  by (simp_all add: finally_block_def enableSearch_def hideLoading_def)

lemma finally_block_frame:
  "pending (finally_block s) = pending s"
  "location (finally_block s) = location s"
  by (simp_all add: finally_block_def enableSearch_def hideLoading_def)

lemma foldl_appendResult:
  "foldl appendResult s xs =
     s\<lparr>resultsList_children :=
         resultsList_children s @ map (\<lambda>(index, r). createResultElement r (index + 1)) xs\<rparr>"
  by (induction xs arbitrary: s) (auto simp: appendResult_def)

lemma displayResults_frame:
  "pending (displayResults d s) = pending s"
  "location (displayResults d s) = location s"
  "isSearching (displayResults d s) = isSearching s"
  by (simp_all add: displayResults_def Let_def foldl_appendResult hideAllSections_def
      displaySummary_def)

lemma try_catch_frame:
  "pending (catch_block (try_block out s)) = pending s"
  "location (catch_block (try_block out s)) = location s"
  by (cases out; simp add: try_block_def catch_block_def showError_frame displayResults_frame)+

lemma performSearch_resume_frame:
  "pending (performSearch_resume out s) = pending s"
  "location (performSearch_resume out s) = location s"
  by (simp_all add: performSearch_resume_def finally_block_frame try_catch_frame)

lemma performSearch_resume_cleanup:
  "\<not> isSearching (performSearch_resume out s)"
  "loadingSpinner_hidden (performSearch_resume out s)"
  "\<not> searchButton_disabled (performSearch_resume out s)"
  "\<not> searchInput_disabled (performSearch_resume out s)"
  by (simp_all add: performSearch_resume_def finally_block_cleanup)

subsection \<open>Single flight\<close>

lemma single_flight_performSearch:
  assumes "single_flight s"
  shows "single_flight (performSearch a s)"
proof (cases "effective_query a s = []")
  case True
  with assms show ?thesis
    by (simp add: performSearch_rejected single_flight_def showError_frame)
next
  case False
  show ?thesis
  proof (cases "isSearching s")
    case True
    with False assms show ?thesis by (simp add: performSearch_dropped)
  next
    case notSearching: False
    with assms have "pending s = []" by (simp add: single_flight_def)
    with performSearch_accepted(1,2) [OF False notSearching] show ?thesis
      by (simp add: single_flight_def)
  qed
qed

lemma single_flight_loadFromUrl:
  "single_flight s \<Longrightarrow> single_flight (loadFromUrl s)"
  by (simp add: loadFromUrl_def Let_def single_flight_performSearch)

lemma single_flight_step:
  assumes "single_flight s"
  shows "single_flight (step s e)"
proof (cases e)
  case Submit
  with assms show ?thesis by (simp add: single_flight_performSearch)
next
  case Startup
  with assms show ?thesis by (simp add: single_flight_loadFromUrl)
next
  case (PopState u)
  from assms have "single_flight (s\<lparr>location := u\<rparr>)" by (simp add: single_flight_def)
  with PopState show ?thesis by (simp add: single_flight_loadFromUrl)
next
  case (Typed v)
  with assms show ?thesis by (simp add: single_flight_def)
next
  case (Settled out)
  show ?thesis
  proof (cases "pending s")
    case Nil
    with Settled assms show ?thesis by simp
  next
    case (Cons q rest)
    with assms have "rest = []" by (simp add: single_flight_def)
    with Settled Cons show ?thesis
      by (simp add: single_flight_def performSearch_resume_frame performSearch_resume_cleanup)
  qed
qed

lemma single_flight_run: "single_flight s \<Longrightarrow> single_flight (run s evs)"
  unfolding run_def by (induction evs arbitrary: s) (simp_all add: single_flight_step)

text \<open>
  Claim C1. A call of \<open>performSearch\<close> with a non-empty effective query while a search is
  in flight returns the page as it was: no request is added to the pending ones, and
  neither the URL nor any element changes. Over every sequence of events from a
  constructed page, at most one request is pending at any time, and the page is searching
  exactly while one is.
\<close>

theorem single_flight_discipline:
  "(isSearching s \<and> effective_query a s \<noteq> [] \<longrightarrow> performSearch a s = s) \<and>
   (constructed s0 \<longrightarrow>
      length (pending (run s0 evs)) \<le> 1 \<and>
      (isSearching (run s0 evs) \<longleftrightarrow> pending (run s0 evs) \<noteq> []))"
proof (intro conjI impI)
  assume "isSearching s \<and> effective_query a s \<noteq> []"
  then show "performSearch a s = s" by (simp add: performSearch_dropped)
next
  assume "constructed s0"
  then have "single_flight (run s0 evs)"
    by (intro single_flight_run) (simp add: constructed_def single_flight_def)
  then show "length (pending (run s0 evs)) \<le> 1"
    and "isSearching (run s0 evs) \<longleftrightarrow> pending (run s0 evs) \<noteq> []"
    by (simp_all add: single_flight_def)
qed

lemma example_page_fields:
  "\<not> isSearching example_page" "pending example_page = []"
  "searchInput_value example_page = []"
  "location example_page =
     \<lparr>origin = js ''https://example.org'', pathname = js ''/search'',
      searchParams = [(js ''lang'', js ''ru''), (js ''q'', js ''old'')], hash = []\<rparr>"
  "errorMessage_hidden example_page"
  by (simp_all add: example_page_def)

text \<open>A URL-driven call dropped while searching, and a double submit.\<close>

theorem single_flight_discipline_witness:
  "performSearch (Some (js ''new'')) (example_page\<lparr>isSearching := True\<rparr>)
     = example_page\<lparr>isSearching := True\<rparr> \<and>
   length (pending (run example_page [Typed (js ''shoes''), Submit, Submit, Startup])) \<le> 1"
proof -
  have "effective_query (Some (js ''new'')) (example_page\<lparr>isSearching := True\<rparr>) \<noteq> []"
    by (simp add: effective_query_def truthy_def js_def)
  moreover have "constructed example_page"
    by (simp add: constructed_def example_page_fields)
  ultimately show ?thesis
    using single_flight_discipline [of "example_page\<lparr>isSearching := True\<rparr>"
        "Some (js ''new'')" example_page "[Typed (js ''shoes''), Submit, Submit, Startup]"]
    by simp
qed

subsection \<open>URL state\<close>

lemma quiet_step:
  assumes "isSearching s" and "quiet e"
  shows "isSearching (step s e) \<and> location (step s e) = location s"
proof -
  have ps: "isSearching (performSearch a s) \<and> location (performSearch a s) = location s"
    for a
    using assms(1)
    by (cases "effective_query a s = []")
       (simp_all add: performSearch_rejected showError_frame performSearch_dropped)
  from assms ps show ?thesis
    by (cases e) (simp_all add: loadFromUrl_def Let_def)
qed

lemma quiet_run:
  "isSearching s \<Longrightarrow> \<forall>e \<in> set evs. quiet e \<Longrightarrow>
   isSearching (run s evs) \<and> location (run s evs) = location s"
  unfolding run_def
proof (induction evs arbitrary: s)
  case Nil
  then show ?case by simp
next
  case (Cons e evs)
  from Cons.prems have "isSearching (step s e) \<and> location (step s e) = location s"
    by (intro quiet_step) simp_all
  with Cons.IH [of "step s e"] Cons.prems(2) show ?case by simp
qed

lemma location_step_Settled: "location (step s (Settled out)) = location s"
  by (cases "pending s") (simp_all add: performSearch_resume_frame)

text \<open>
  Claim C3, as amended. When \<open>performSearch\<close> accepts a query (it is not empty and no
  search is in flight), the \<open>q\<close> parameter of the location is that query as
  \<open>URLSearchParams\<close> stores it (an unpaired surrogate replaced by U+FFFD, so the query itself
  when it has no surrogate) as soon as the call returns. It is still so after any further
  submissions, start-up calls and typing, and when the request has then settled, whatever
  the outcome: such calls are rejected or dropped while the search is in flight, and the
  rest of \<open>performSearch\<close> never changes the location. Only a back or forward navigation in
  between changes \<open>q\<close>. When \<open>performSearch\<close> rejects the call (empty query) or drops it (a
  search in flight), the location is unchanged.
\<close>

theorem url_follows_accepted_search:
  "(effective_query a s \<noteq> [] \<and> \<not> isSearching s \<and> (\<forall>e \<in> set evs. quiet e) \<longrightarrow>
      searchParams_get Q (location (performSearch a s))
        = Some (toUSVString (effective_query a s)) \<and>
      searchParams_get Q (location (run (performSearch a s) evs))
        = Some (toUSVString (effective_query a s)) \<and>
      searchParams_get Q (location (step (run (performSearch a s) evs) (Settled out)))
        = Some (toUSVString (effective_query a s))) \<and>
   ((\<forall>c \<in> set (effective_query a s). \<not> is_high c \<and> \<not> is_low c) \<longrightarrow>
      toUSVString (effective_query a s) = effective_query a s) \<and>
   location (performSearch_resume out s) = location s \<and>
   (effective_query a s = [] \<or> isSearching s \<longrightarrow>
      location (performSearch a s) = location s)"
proof (intro conjI impI)
  assume acc: "effective_query a s \<noteq> [] \<and> \<not> isSearching s \<and> (\<forall>e \<in> set evs. quiet e)"
  then show 1: "searchParams_get Q (location (performSearch a s))
      = Some (toUSVString (effective_query a s))"
    by (simp add: performSearch_accepted(3) searchParams_get_set)
  from acc have "isSearching (performSearch a s)"
    by (simp add: performSearch_accepted(1))
  with acc have "location (run (performSearch a s) evs) = location (performSearch a s)"
    by (simp add: quiet_run)
  with 1 show "searchParams_get Q (location (run (performSearch a s) evs))
      = Some (toUSVString (effective_query a s))"
    and "searchParams_get Q (location (step (run (performSearch a s) evs) (Settled out)))
      = Some (toUSVString (effective_query a s))"
    by (simp_all only: location_step_Settled)
next
  assume "\<forall>c \<in> set (effective_query a s). \<not> is_high c \<and> \<not> is_low c"
  then show "toUSVString (effective_query a s) = effective_query a s"
    by (rule toUSVString_id)
next
  show "location (performSearch_resume out s) = location s"
    by (rule performSearch_resume_frame)
next
  assume "effective_query a s = [] \<or> isSearching s"
  then show "location (performSearch a s) = location s"
    by (cases "effective_query a s = []")
       (auto simp: performSearch_rejected showError_frame performSearch_dropped)
qed

text \<open>An accepted query, still in the address bar after a second submit and after the
  request has failed, and a rejected empty one.\<close>

theorem url_follows_accepted_search_witness:
  "searchParams_get Q (location (performSearch (Some (js ''new'')) example_page))
     = Some (js ''new'') \<and>
   searchParams_get Q
     (location (run (performSearch (Some (js ''new'')) example_page)
        [Typed (js ''other''), Submit]))
     = Some (js ''new'') \<and>
   searchParams_get Q
     (location (step (run (performSearch (Some (js ''new'')) example_page)
        [Typed (js ''other''), Submit]) (Settled (FetchRejected (js ''Failed to fetch'')))))
     = Some (js ''new'') \<and>
   location (performSearch None example_page) = location example_page"
proof -
  have q: "effective_query (Some (js ''new'')) example_page = js ''new''"
    by (simp add: effective_query_def truthy_def js_def)
  have "js ''new'' \<noteq> []" by (simp add: js_def)
  with q have acc: "effective_query (Some (js ''new'')) example_page \<noteq> [] \<and>
      \<not> isSearching example_page \<and> (\<forall>e \<in> set [Typed (js ''other''), Submit]. quiet e)"
    by (simp add: example_page_fields)
  have plain: "\<forall>c \<in> set (effective_query (Some (js ''new'')) example_page).
      \<not> is_high c \<and> \<not> is_low c"
    by (simp add: q) (simp add: js_def is_high_def is_low_def)
  have rej: "effective_query None example_page = []"
    by (simp add: effective_query_def truthy_def trim_def example_page_fields)
  from url_follows_accepted_search [of "Some (js ''new'')" example_page
      "[Typed (js ''other''), Submit]" "FetchRejected (js ''Failed to fetch'')"] acc plain
  have "searchParams_get Q (location (performSearch (Some (js ''new'')) example_page))
     = Some (js ''new'')"
    and "searchParams_get Q
     (location (run (performSearch (Some (js ''new'')) example_page)
        [Typed (js ''other''), Submit]))
     = Some (js ''new'')"
    and "searchParams_get Q
     (location (step (run (performSearch (Some (js ''new'')) example_page)
        [Typed (js ''other''), Submit]) (Settled (FetchRejected (js ''Failed to fetch'')))))
     = Some (js ''new'')"
    unfolding q by metis+
  moreover from url_follows_accepted_search [of None example_page] rej
  have "location (performSearch None example_page) = location example_page" by blast
  ultimately show ?thesis by blast
qed

text \<open>
  Claim C3 as stated covers the calls that the single-flight guard or the validation turns
  away, and every completed call. On the page \<open>?lang=ru&q=old\<close>, the query \<open>new\<close> submitted
  while a search is in flight leaves \<open>q=old\<close>, and so does an empty submission, which
  neither sets nor clears \<open>q\<close>. And when the search for \<open>new\<close> is accepted and the user
  navigates back to \<open>?q=other\<close> before the request settles, the search for \<open>other\<close> is
  dropped, only \<open>new\<close> is requested, and the session ends with \<open>q=other\<close>.
\<close>

theorem stale_url_counterexample:
  "searchParams_get Q
     (location (performSearch (Some (js ''new'')) (example_page\<lparr>isSearching := True\<rparr>)))
     = Some (js ''old'') \<and>
   js ''old'' \<noteq> js ''new'' \<and>
   effective_query None example_page = [] \<and>
   searchParams_get Q (location (performSearch None example_page)) = Some (js ''old'') \<and>
   pending (step (performSearch (Some (js ''new'')) example_page)
      (PopState ((location example_page)\<lparr>searchParams := [(Q, js ''other'')]\<rparr>)))
     = [js ''new''] \<and>
   searchParams_get Q
     (location (run (performSearch (Some (js ''new'')) example_page)
        [PopState ((location example_page)\<lparr>searchParams := [(Q, js ''other'')]\<rparr>),
         Settled (FetchRejected (js ''Failed to fetch''))]))
     = Some (js ''other'') \<and>
   js ''other'' \<noteq> js ''new''"
proof -
  have "effective_query (Some (js ''new'')) (example_page\<lparr>isSearching := True\<rparr>) \<noteq> []"
    by (simp add: effective_query_def truthy_def js_def)
  then have 1: "performSearch (Some (js ''new'')) (example_page\<lparr>isSearching := True\<rparr>)
      = example_page\<lparr>isSearching := True\<rparr>"
    by (simp add: performSearch_dropped)
  have rej: "effective_query None example_page = []"
    by (simp add: effective_query_def truthy_def trim_def example_page_fields)
  then have 2: "location (performSearch None example_page) = location example_page"
    by (simp add: performSearch_rejected showError_frame)
  have 3: "searchParams_get Q (location example_page) = Some (js ''old'')"
    by (simp add: searchParams_get_def example_page_fields toUSVString_Q)
       (simp add: Q_def js_def)
  let ?u = "(location example_page)\<lparr>searchParams := [(Q, js ''other'')]\<rparr>"
  let ?s1 = "performSearch (Some (js ''new'')) example_page"
  have q: "effective_query (Some (js ''new'')) example_page = js ''new''"
    by (simp add: effective_query_def truthy_def js_def)
  have ne: "js ''new'' \<noteq> []" "js ''other'' \<noteq> []" by (simp_all add: js_def)
  have s1: "isSearching ?s1" "pending ?s1 = [js ''new'']"
    using performSearch_accepted(1,2) [of "Some (js ''new'')" example_page]
    by (simp_all add: q ne example_page_fields)
  have gu: "searchParams_get Q ?u = Some (js ''other'')"
    by (simp add: searchParams_get_def toUSVString_Q)
  have "effective_query (Some (js ''other'')) (?s1\<lparr>location := ?u\<rparr>) \<noteq> []"
    by (simp add: effective_query_def truthy_def ne)
  then have "performSearch (Some (js ''other'')) (?s1\<lparr>location := ?u\<rparr>) = ?s1\<lparr>location := ?u\<rparr>"
    using s1(1) by (intro performSearch_dropped) simp_all
  then have s2: "step ?s1 (PopState ?u) = ?s1\<lparr>location := ?u\<rparr>"
    by (simp add: loadFromUrl_def gu truthy_def ne)
  then have 4: "pending (step ?s1 (PopState ?u)) = [js ''new'']"
    by (simp add: s1)
  have "location (run ?s1 [PopState ?u, Settled (FetchRejected (js ''Failed to fetch''))])
      = ?u"
    unfolding run_def by (simp only: foldl.simps s2 location_step_Settled) simp
  then have 5: "searchParams_get Q
     (location (run ?s1 [PopState ?u, Settled (FetchRejected (js ''Failed to fetch''))]))
     = Some (js ''other'')"
    by (simp only: gu)
  have 6: "js ''old'' \<noteq> js ''new''" "js ''other'' \<noteq> js ''new''" by (simp_all add: js_def)
  from 1 2 3 4 5 6 rej show ?thesis by simp
qed

subsection \<open>Validation\<close>

text \<open>
  Claim C4 at the query of one space. Passed as the URL-driven argument, or read by
  \<open>loadFromUrl\<close> from \<open>?q=%20\<close>, it is requested from the search service and no error is
  shown; typed into the input field, it is rejected with the error state and no request.
\<close>

theorem whitespace_query_from_url_is_requested:
  "pending (performSearch (Some (js '' '')) example_page) = [js '' ''] \<and>
   errorMessage_hidden (performSearch (Some (js '' '')) example_page) \<and>
   pending (loadFromUrl (example_page\<lparr>location :=
      (location example_page)\<lparr>searchParams := [(Q, js '' '')]\<rparr>\<rparr>)) = [js '' ''] \<and>
   pending (performSearch None (example_page\<lparr>searchInput_value := js '' ''\<rparr>)) = [] \<and>
   \<not> errorMessage_hidden (performSearch None (example_page\<lparr>searchInput_value := js '' ''\<rparr>))"
proof -
  have q: "effective_query (Some (js '' '')) s = js '' ''" for s
    by (simp add: effective_query_def truthy_def js_def)
  have ne: "js '' '' \<noteq> []" by (simp add: js_def)
  have 1: "pending (performSearch (Some (js '' '')) example_page) = [js '' '']"
    using performSearch_accepted(2) [of "Some (js '' '')" example_page]
    by (simp add: q ne example_page_fields)
  have 2: "errorMessage_hidden (performSearch (Some (js '' '')) example_page)"
    by (simp add: performSearch_def q ne example_page_fields Let_def updateUrl_def
        showLoading_def hideAllSections_def disableSearch_def)
  let ?s = "example_page\<lparr>location := (location example_page)\<lparr>searchParams := [(Q, js '' '')]\<rparr>\<rparr>"
  have "loadFromUrl ?s = performSearch (Some (js '' '')) ?s"
    by (simp add: loadFromUrl_def searchParams_get_def truthy_def ne toUSVString_Q)
  moreover have "pending (performSearch (Some (js '' '')) ?s) = [js '' '']"
    using performSearch_accepted(2) [of "Some (js '' '')" ?s]
    by (simp add: q ne example_page_fields)
  ultimately have 3: "pending (loadFromUrl ?s) = [js '' '']" by simp
  let ?t = "example_page\<lparr>searchInput_value := js '' ''\<rparr>"
  have "effective_query None ?t = []"
    by (simp add: effective_query_def truthy_def trim_def js_def is_white_def)
  then have "performSearch None ?t = showError MSG_EMPTY_QUERY ?t"
    by (rule performSearch_rejected)
  then have 4: "pending (performSearch None ?t) = []"
    and 5: "\<not> errorMessage_hidden (performSearch None ?t)"
    by (simp_all add: showError_def hideAllSections_def example_page_fields)
  from 1 2 3 4 5 show ?thesis by blast
qed

subsection \<open>Cleanup\<close>

text \<open>
  Claim C5. However the request settles (a body with or without HTTP success and with or
  without \<open>success\<close>, a rejected \<open>fetch\<close>, a rejected \<open>json()\<close>), the rest of
  \<open>performSearch\<close> ends with \<open>isSearching\<close> false, the loading indicator hidden and both
  search controls enabled. In particular an accepted search sets \<open>isSearching\<close>, and the
  page is cleaned up, with nothing pending, once its request has settled.
\<close>

theorem guaranteed_cleanup:
  "cleaned_up (performSearch_resume out s) \<and>
   (effective_query a s \<noteq> [] \<and> \<not> isSearching s \<and> pending s = [] \<longrightarrow>
      isSearching (performSearch a s) \<and>
      cleaned_up (step (performSearch a s) (Settled out)) \<and>
      pending (step (performSearch a s) (Settled out)) = [])"
proof -
  have "isSearching (performSearch a s) \<and>
      step (performSearch a s) (Settled out)
        = performSearch_resume out ((performSearch a s)\<lparr>pending := []\<rparr>)"
    if "effective_query a s \<noteq> []" "\<not> isSearching s" "pending s = []"
    using performSearch_accepted(1,2) [OF that(1,2)] that(3) by simp
  then show ?thesis
    by (auto simp: cleaned_up_def performSearch_resume_cleanup performSearch_resume_frame)
qed

text \<open>The five ways a request settles, after an accepted search.\<close>

theorem guaranteed_cleanup_witness:
  "cleaned_up (step (performSearch (Some (js ''new'')) example_page)
     (Settled (Responded True ok_response))) \<and>
   cleaned_up (step (performSearch (Some (js ''new'')) example_page)
     (Settled (Responded True failed_response))) \<and>
   cleaned_up (step (performSearch (Some (js ''new'')) example_page)
     (Settled (Responded False failed_response))) \<and>
   cleaned_up (step (performSearch (Some (js ''new'')) example_page)
     (Settled (FetchRejected (js ''Failed to fetch'')))) \<and>
   cleaned_up (step (performSearch (Some (js ''new'')) example_page)
     (Settled (JsonRejected (js ''Unexpected token''))))"
proof -
  have "effective_query (Some (js ''new'')) example_page \<noteq> [] \<and>
      \<not> isSearching example_page \<and> pending example_page = []"
    by (simp add: effective_query_def truthy_def js_def example_page_fields)
  with guaranteed_cleanup [where a = "Some (js ''new'')" and s = example_page]
  show ?thesis by blast
qed

subsection \<open>Rendering\<close>

lemma displayResults_children:
  "results d \<noteq> [] \<Longrightarrow>
   resultsList_children (displayResults d s)
     = map (\<lambda>(index, r). createResultElement r (index + 1)) (enumerate 0 (results d))"
  by (simp add: displayResults_def Let_def foldl_appendResult)



subsection \<open>Escaped insertion\<close>







lemma formatText_example2:
  \<open>formatText (js ''a\<newline>\<newline>\<newline>b\<newline>c'') = js ''<p>a</p><p>b<br>c</p>''\<close>
  by code_simp





subsection \<open>updateUrl\<close>

text \<open>
  Claim C10. For a non-empty query, \<open>updateUrl\<close> pushes a history entry whose URL has the
  origin, the path and the fragment of the current one and the same search parameters
  other than \<open>q\<close>, in the same order, with \<open>q\<close> set to the query as \<open>URLSearchParams\<close> stores
  it. The URL of \<open>getShareableUrl\<close> has the same origin and path, and \<open>q\<close> as its only
  parameter.
\<close>

theorem updateUrl_changes_only_q:
  "query \<noteq> [] \<longrightarrow>
     origin (location (updateUrl query s)) = origin (location s) \<and>
     pathname (location (updateUrl query s)) = pathname (location s) \<and>
     hash (location (updateUrl query s)) = hash (location s) \<and>
     filter (\<lambda>p. fst p \<noteq> Q) (searchParams (location (updateUrl query s)))
       = filter (\<lambda>p. fst p \<noteq> Q) (searchParams (location s)) \<and>
     searchParams_get Q (location (updateUrl query s)) = Some (toUSVString query) \<and>
     history (updateUrl query s) = (query, location (updateUrl query s)) # history s \<and>
     origin (getShareableUrl query s) = origin (location s) \<and>
     pathname (getShareableUrl query s) = pathname (location s) \<and>
     searchParams (getShareableUrl query s) = [(Q, toUSVString query)]"
  by (simp add: updateUrl_def getShareableUrl_def searchParams_set_def searchParams_get_def
      map_of_set_first filter_set_first Let_def toUSVString_Q)

text \<open>On \<open>?lang=ru&q=old\<close>: \<open>lang\<close> stays in the address bar and is absent from the
  share URL.\<close>

theorem updateUrl_changes_only_q_witness:
  "searchParams (location (updateUrl (js ''new'') example_page))
     = [(js ''lang'', js ''ru''), (js ''q'', js ''new'')] \<and>
   origin (location (updateUrl (js ''new'') example_page)) = js ''https://example.org'' \<and>
   pathname (location (updateUrl (js ''new'') example_page)) = js ''/search'' \<and>
   searchParams (getShareableUrl (js ''new'') example_page) = [(js ''q'', js ''new'')]"
proof -
  have ne: "js ''new'' \<noteq> []" by (simp add: js_def)
  have usv: "toUSVString (js ''new'') = js ''new''"
    by (simp add: js_def is_high_def is_low_def)
  have "searchParams (location (updateUrl (js ''new'') example_page))
     = [(js ''lang'', js ''ru''), (js ''q'', js ''new'')]"
    by (simp add: updateUrl_def searchParams_set_def example_page_fields Let_def
        toUSVString_Q usv ne)
       (simp add: Q_def js_def)
  with updateUrl_changes_only_q [of "js ''new''" example_page] ne
  show ?thesis by (simp add: example_page_fields Q_def usv)
qed

subsection \<open>Number formatting\<close>

lemma decimal_large:
  "10 \<le> n \<Longrightarrow> decimal n = decimal (n div 10) @ [digit (n mod 10)]"
  by (subst decimal.simps) simp

lemma length_decimal_pos: "0 < length (decimal n)"
  by (cases "n < 10") (simp_all add: decimal_small decimal_large)

lemma length_fixed_digits: "length (fixed_digits f n) = f"
  by (induction f arbitrary: n) simp_all

lemma fixed_digits_zero: "fixed_digits f 0 = replicate f (digit 0)"
  by (induction f) (simp_all add: replicate_append_same)

lemma decimal_bounds:
  "0 < n \<Longrightarrow> 10 ^ (length (decimal n) - 1) \<le> n \<and> n < 10 ^ length (decimal n)"
proof (induction n rule: decimal.induct)
  case (1 n)
  show ?case
  proof (cases "n < 10")
    case True
    with "1.prems" show ?thesis by (simp add: decimal_small)
  next
    case False
    then have pos: "0 < n div 10" by simp
    from "1.IH" [OF False pos]
    have lo: "10 ^ (length (decimal (n div 10)) - 1) \<le> n div 10"
      and hi: "n div 10 < 10 ^ length (decimal (n div 10))" by simp_all
    from False have dec: "decimal n = decimal (n div 10) @ [digit (n mod 10)]"
      by (simp add: decimal_large)
    from length_decimal_pos [of "n div 10"] obtain k
      where k: "length (decimal (n div 10)) = Suc k"
      by (cases "length (decimal (n div 10))") auto
    from lo k have "10 ^ k \<le> n div 10" by simp
    then have "10 * 10 ^ k \<le> n" by simp
    moreover from hi k have "n div 10 < 10 ^ Suc k" by simp
    then have "n < 10 * 10 ^ Suc k" by simp
    ultimately show ?thesis by (simp add: dec k)
  qed
qed

lemma padded_decimal:
  "(if length (decimal n) \<le> f
    then replicate (f + 1 - length (decimal n)) (digit 0) @ decimal n
    else decimal n)
   = decimal (n div 10 ^ f) @ fixed_digits f n"
proof (induction f arbitrary: n)
  case 0
  from length_decimal_pos [of n] show ?case by simp
next
  case (Suc f)
  show ?case
  proof (cases "n < 10")
    case True
    from True have "n < 10 * 1" by simp
    also have "(10::nat) * 1 \<le> 10 * 10 ^ f" by (rule mult_le_mono2) simp
    finally have "n < 10 ^ Suc f" by simp
    then have "n div 10 ^ Suc f = 0" by (rule div_less)
    moreover have "decimal 0 = [digit 0]" by (simp add: decimal_small)
    ultimately show ?thesis
      using True by (simp add: decimal_small fixed_digits_zero replicate_append_same)
  next
    case False
    then have dec: "decimal n = decimal (n div 10) @ [digit (n mod 10)]"
      by (simp add: decimal_large)
    have "n div 10 ^ Suc f = n div 10 div 10 ^ f"
      by (simp add: div_mult2_eq)
    with Suc [of "n div 10"] show ?thesis
      by (auto simp: dec Suc_diff_le)
  qed
qed

lemma toFixed_digits_split:
  assumes "f \<noteq> 0"
  shows "toFixed_digits f x =
    decimal (round_half_up (x * 10 ^ f) div 10 ^ f) @ js ''.'' @
    fixed_digits f (round_half_up (x * 10 ^ f))"
  using assms
  by (simp add: toFixed_digits_def Let_def padded_decimal length_fixed_digits)

lemma pow10_pos: "0 < pow10 e"
  by (simp add: pow10_def)

lemma pow10_powi: "pow10 e = 10 powi e"
  by (simp add: pow10_def power_int_def inverse_eq_divide power_one_over)

lemma pow10_Suc: "pow10 (e + 1) = 10 * pow10 e"
  by (simp add: pow10_powi power_int_add)

lemma pow10_diff: "pow10 (e - int f) * 10 ^ f = pow10 e"
  by (simp add: pow10_powi power_int_diff)

lemma pow10_nat: "pow10 (int k) = 10 ^ k"
  by (simp add: pow10_def)

lemma pow10_neg: "pow10 (- int k) = 1 / 10 ^ k"
  by (simp add: pow10_def)

lemma decimal_bounds_rat:
  assumes "0 < n"
  obtains l where "length (decimal n) = Suc l"
    and "(10::rat) ^ l \<le> of_nat n" and "of_nat n + 1 \<le> (10::rat) ^ Suc l"
proof -
  from length_decimal_pos [of n] obtain l where l: "length (decimal n) = Suc l"
    by (cases "length (decimal n)") auto
  from decimal_bounds [OF assms] l have lo: "10 ^ l \<le> n" and hi: "Suc n \<le> 10 ^ Suc l"
    by simp_all
  from lo have "(of_nat (10 ^ l) :: rat) \<le> of_nat n" by (simp only: of_nat_le_iff)
  then have 1: "(10::rat) ^ l \<le> of_nat n" by simp
  from hi have "(of_nat (Suc n) :: rat) \<le> of_nat (10 ^ Suc l)" by (simp only: of_nat_le_iff)
  then have 2: "of_nat n + 1 \<le> (10::rat) ^ Suc l" by simp
  from l 1 2 show thesis by (rule that)
qed

lemma exponent10_ge1:
  assumes "1 \<le> x"
  shows "pow10 (exponent10 x) \<le> x \<and> x < pow10 (exponent10 x + 1)"
proof -
  define k where "k = nat \<lfloor>x\<rfloor>"
  from assms have fl: "1 \<le> \<lfloor>x\<rfloor>" by (simp add: le_floor_iff)
  then have kpos: "0 < k" by (simp add: k_def)
  from fl have kx: "(of_nat k :: rat) = of_int \<lfloor>x\<rfloor>" by (simp add: k_def)
  have "of_int \<lfloor>x\<rfloor> \<le> x" "x < of_int \<lfloor>x\<rfloor> + 1" by linarith+
  with kx have k: "of_nat k \<le> x" "x < of_nat k + 1" by simp_all
  from decimal_bounds_rat [OF kpos] obtain l where l: "length (decimal k) = Suc l"
    and lo: "(10::rat) ^ l \<le> of_nat k" and hi: "of_nat k + 1 \<le> (10::rat) ^ Suc l"
    by blast
  from k lo hi have "10 ^ l \<le> x" "x < 10 ^ Suc l" by linarith+
  moreover have "exponent10 x = int l"
    using assms l unfolding exponent10_def k_def by simp
  moreover have "pow10 (int l + 1) = 10 ^ Suc l"
    using pow10_nat [of "Suc l"] by (simp add: add.commute)
  ultimately show ?thesis by (simp add: pow10_nat)
qed

lemma exponent10_lt1:
  assumes "0 < x" and "x < 1"
  shows "pow10 (exponent10 x) \<le> x \<and> x < pow10 (exponent10 x + 1)"
proof -
  define y where "y = 1 / x"
  define j where "j = nat (\<lceil>y\<rceil> - 1)"
  from assms have y: "1 < y" by (simp add: y_def)
  then have c: "2 \<le> \<lceil>y\<rceil>" by linarith
  then have jpos: "0 < j" by (simp add: j_def)
  from c have jy: "(of_nat j :: rat) = of_int \<lceil>y\<rceil> - 1" by (simp add: j_def)
  have "of_int \<lceil>y\<rceil> - 1 < y" "y \<le> of_int \<lceil>y\<rceil>" by linarith+
  with jy have j: "of_nat j < y" "y \<le> of_nat j + 1" by simp_all
  from decimal_bounds_rat [OF jpos] obtain l where l: "length (decimal j) = Suc l"
    and lo: "(10::rat) ^ l \<le> of_nat j" and hi: "of_nat j + 1 \<le> (10::rat) ^ Suc l"
    by blast
  from j lo hi have ylo: "10 ^ l < y" and yhi: "y \<le> 10 ^ Suc l" by linarith+
  have e: "exponent10 x = - int (Suc l)"
    using assms l unfolding exponent10_def j_def y_def by simp
  have xy: "x = 1 / y" using assms by (simp add: y_def)
  have ypos: "0 < y" using y by simp
  have "1 / 10 ^ Suc l \<le> 1 / y"
    using yhi ypos by (intro divide_left_mono) simp_all
  then have 1: "pow10 (- int (Suc l)) \<le> x"
    by (simp only: pow10_neg xy)
  have "1 / y < 1 / 10 ^ l"
    using ylo ypos by (intro divide_strict_left_mono) simp_all
  then have "x < pow10 (- int l)" by (simp only: pow10_neg xy)
  moreover have "- int (Suc l) + 1 = - int l" by simp
  ultimately have 2: "x < pow10 (- int (Suc l) + 1)" by (simp only:)
  from 1 2 show ?thesis by (simp only: e)
qed

lemma exponent10_bounds:
  assumes "0 < x"
  shows "pow10 (exponent10 x) \<le> x \<and> x < pow10 (exponent10 x + 1)"
  using assms exponent10_ge1 [of x] exponent10_lt1 [of x] by (cases "1 \<le> x") auto

lemma round_half_up_bounds:
  assumes "0 \<le> y"
  shows "y - 1 / 2 < of_nat (round_half_up y)" and "of_nat (round_half_up y) \<le> y + 1 / 2"
proof -
  from assms have "0 \<le> \<lfloor>y + 1 / 2\<rfloor>" by simp
  then have eq: "(of_nat (round_half_up y) :: rat) = of_int \<lfloor>y + 1 / 2\<rfloor>"
    by (simp add: round_half_up_def)
  have "of_int \<lfloor>y + 1 / 2\<rfloor> \<le> y + 1 / 2" "y + 1 / 2 < of_int \<lfloor>y + 1 / 2\<rfloor> + 1"
    by linarith+
  with eq show "y - 1 / 2 < of_nat (round_half_up y)"
    and "of_nat (round_half_up y) \<le> y + 1 / 2" by linarith+
qed

lemma round_half_up_between:
  assumes "of_nat a \<le> y" and "y < of_nat b"
  shows "a \<le> round_half_up y \<and> round_half_up y \<le> b"
proof -
  from assms(1) have y0: "0 \<le> y" using of_nat_0_le_iff [of a, where ?'a = rat] by linarith
  from round_half_up_bounds [OF y0] assms
  have "(of_nat a :: rat) - 1 < of_nat (round_half_up y)"
    and "(of_nat (round_half_up y) :: rat) < of_nat b + 1" by linarith+
  then have "(of_nat a :: rat) < of_nat (Suc (round_half_up y))"
    and "(of_nat (round_half_up y) :: rat) < of_nat (Suc b)" by simp_all
  then have "a < Suc (round_half_up y)" and "round_half_up y < Suc b"
    by (simp_all only: of_nat_less_iff)
  then show ?thesis by simp
qed

lemma scientific_bounds:
  assumes "0 < x" and "scientific f x = (e, n)"
  shows "10 ^ f \<le> n \<and> n < 10 ^ (f + 1) \<and>
         \<bar>of_nat n * pow10 (e - int f) - x\<bar> \<le> pow10 (e - int f) / 2 \<and>
         e \<le> exponent10 x + 1"
proof -
  define e0 where "e0 = exponent10 x"
  define p where "p = pow10 (e0 - int f)"
  define y where "y = x / p"
  define n0 where "n0 = round_half_up y"
  have ppos: "0 < p" by (simp add: p_def pow10_pos)
  have pe: "p * 10 ^ f = pow10 e0" by (simp add: p_def pow10_diff)
  from exponent10_bounds [OF assms(1)]
  have "pow10 e0 \<le> x" "x < 10 * pow10 e0" by (simp_all add: e0_def pow10_Suc)
  with pe have "p * 10 ^ f \<le> x" "x < p * (10 * 10 ^ f)" by simp_all
  with ppos have ylo: "10 ^ f \<le> y" and yhi: "y < 10 * 10 ^ f"
    by (simp_all add: y_def field_simps)
  have "(of_nat (10 ^ f) :: rat) \<le> y" "y < of_nat (10 ^ (f + 1))"
    using ylo yhi by simp_all
  from round_half_up_between [OF this]
  have n0: "10 ^ f \<le> n0" "n0 \<le> 10 ^ (f + 1)" by (simp_all add: n0_def)
  from ylo have y0: "0 \<le> y" using zero_le_power [of "10::rat" f] by linarith
  from round_half_up_bounds [OF y0] have "\<bar>of_nat n0 - y\<bar> \<le> 1 / 2"
    unfolding n0_def by linarith
  then have "\<bar>of_nat n0 - y\<bar> * p \<le> 1 / 2 * p"
    using ppos by (intro mult_right_mono) simp_all
  moreover have "\<bar>of_nat n0 - y\<bar> * p = \<bar>of_nat n0 * p - x\<bar>"
  proof -
    have yp: "y * p = x" using ppos by (simp add: y_def)
    have "\<bar>of_nat n0 - y\<bar> * p = \<bar>(of_nat n0 - y) * p\<bar>"
      using ppos by (simp add: abs_mult)
    also have "(of_nat n0 - y) * p = of_nat n0 * p - x"
      by (simp only: left_diff_distrib yp)
    finally show ?thesis .
  qed
  ultimately have err: "\<bar>of_nat n0 * p - x\<bar> \<le> p / 2" by simp
  have sci: "scientific f x = (if n0 = 10 ^ (f + 1) then (e0 + 1, 10 ^ f) else (e0, n0))"
    by (simp add: scientific_def Let_def e0_def n0_def y_def p_def)
  show ?thesis
  proof (cases "n0 = 10 ^ (f + 1)")
    case True
    with sci assms(2) have en: "e = e0 + 1" "n = 10 ^ f" by simp_all
    have "e - int f = (e0 - int f) + 1" by (simp add: en)
    then have p': "pow10 (e - int f) = 10 * p"
      by (simp only: pow10_Suc p_def)
    have "(of_nat n :: rat) * pow10 (e - int f) = of_nat n0 * p"
      by (simp add: en(2) p' True)
    moreover have "n < 10 ^ (f + 1)" by (simp add: en(2))
    moreover have "e \<le> exponent10 x + 1" by (simp add: en(1) e0_def)
    moreover have "p / 2 \<le> pow10 (e - int f) / 2" using ppos by (simp add: p')
    ultimately show ?thesis using err by (simp add: en(2))
  next
    case False
    with sci assms(2) have en: "e = e0" "n = n0" by simp_all
    from False n0 have "n0 < 10 ^ (f + 1)" by simp
    with n0 err show ?thesis
      by (simp add: en p_def [symmetric] e0_def [symmetric])
  qed
qed

lemma pow10_mono: "a \<le> b \<Longrightarrow> pow10 a \<le> pow10 b"
  by (simp add: pow10_powi power_int_increasing)

lemma three_digits:
  assumes "100 \<le> n" and "n < 1000"
  shows "decimal n = [digit (n div 100)] @ fixed_digits 2 n"
proof -
  from assms have "0 < n" by simp
  from decimal_bounds [OF this] assms have "(10::nat) ^ 2 < 10 ^ length (decimal n)"
    by simp
  then have "2 < length (decimal n)" by (simp only: power_strict_increasing_iff)
  with padded_decimal [of n 2] have "decimal n = decimal (n div 100) @ fixed_digits 2 n"
    by simp
  moreover from assms have "n div 100 < 10" by simp
  ultimately show ?thesis by (simp add: decimal_small)
qed

lemma toExponential_2:
  assumes "0 < x" and "x < 1 / 100"
  shows "\<exists>e n. 2 \<le> e \<and> 100 \<le> n \<and> n < 1000 \<and>
           \<bar>of_nat n / 10 ^ (e + 2) - x\<bar> \<le> 1 / (2 * 10 ^ (e + 2)) \<and>
           toExponential 2 (Finite x) =
             [digit (n div 100)] @ js ''.'' @ fixed_digits 2 n @ js ''e-'' @ decimal e"
proof -
  obtain e n where sci: "scientific 2 x = (e, n)" by (cases "scientific 2 x")
  from scientific_bounds [OF assms(1) sci]
  have n: "100 \<le> n" "n < 1000"
    and err: "\<bar>of_nat n * pow10 (e - 2) - x\<bar> \<le> pow10 (e - 2) / 2"
    and e: "e \<le> exponent10 x + 1" by simp_all
  have "exponent10 x < - 2"
  proof (rule ccontr)
    assume "\<not> exponent10 x < - 2"
    then have "pow10 (- 2) \<le> pow10 (exponent10 x)" by (intro pow10_mono) simp
    with exponent10_bounds [OF assms(1)] assms(2) show False
      by (simp add: pow10_def)
  qed
  with e have eneg: "e \<le> - 2" by simp
  define k where "k = nat (- e)"
  from eneg have k: "2 \<le> k" "e = - int k" by (simp_all add: k_def)
  have "e - 2 = - int (k + 2)" using k by simp
  then have p: "pow10 (e - 2) = 1 / 10 ^ (k + 2)" by (simp only: pow10_neg)
  from err have 1: "\<bar>of_nat n / 10 ^ (k + 2) - x\<bar> \<le> 1 / (2 * 10 ^ (k + 2))"
    by (simp add: p)
  from assms(1) k have "toExponential 2 (Finite x) =
      take 1 (decimal n) @ js ''.'' @ drop 1 (decimal n) @ js ''e-'' @ decimal k"
    by (simp add: toExponential_def sci Let_def js_def)
  then have 2: "toExponential 2 (Finite x) =
      [digit (n div 100)] @ js ''.'' @ fixed_digits 2 n @ js ''e-'' @ decimal k"
    by (simp add: three_digits [OF n])
  from k(1) n 1 2 show ?thesis by blast
qed

lemma formatScore_zero: "formatScore (Finite 0) = js ''0.00e+0''"
  by (simp add: formatScore_def D0_001_def toExponential_def js_def numeral_3_eq_3 digit_def)

lemma formatScore_scientific:
  assumes "0 < x" and "x < D0_001"
  shows "\<exists>e n. 2 \<le> e \<and> 100 \<le> n \<and> n < 1000 \<and>
           \<bar>of_nat n / 10 ^ (e + 2) - x\<bar> \<le> 1 / (2 * 10 ^ (e + 2)) \<and>
           formatScore (Finite x) =
             [digit (n div 100)] @ js ''.'' @ fixed_digits 2 n @ js ''e-'' @ decimal e"
proof -
  from assms(2) have "x < 1 / 100" by (simp add: D0_001_def)
  from toExponential_2 [OF assms(1) this] assms(2) show ?thesis
    by (simp add: formatScore_def)
qed

lemma formatScore_fixed3:
  assumes "D0_001 \<le> x" and "x < 1"
  shows "formatScore (Finite x) =
    decimal (round_half_up (x * 1000) div 1000) @ js ''.'' @
    fixed_digits 3 (round_half_up (x * 1000))"
proof -
  from assms(1) have "0 \<le> x" by (simp add: D0_001_def)
  with assms have "formatScore (Finite x) = toFixed_digits 3 x"
    by (simp add: formatScore_def toFixed_def)
  then show ?thesis by (simp add: toFixed_digits_split)
qed

lemma formatScore_fixed2:
  assumes "1 \<le> x" and "x < 10 ^ 21"
  shows "formatScore (Finite x) =
    decimal (round_half_up (x * 100) div 100) @ js ''.'' @
    fixed_digits 2 (round_half_up (x * 100))"
proof -
  from assms(1) have "\<not> x < D0_001" by (simp add: D0_001_def)
  with assms have "formatScore (Finite x) = toFixed_digits 2 x"
    by (simp add: formatScore_def toFixed_def)
  then show ?thesis by (simp add: toFixed_digits_split)
qed

text \<open>
  Claim C7, as amended. The thresholds are the doubles of the literals: \<open>D0_001\<close> is
  within \<open>2^-63\<close> above \<open>1/1000\<close>. For a finite score \<open>x \<ge> 0\<close>: at \<open>0\<close> the result is
  \<open>0.00e+0\<close>; for \<open>0 < x < 0.001\<close> it is scientific notation with two fractional digits,
  \<open>d.dde-k\<close> with \<open>k \<ge> 2\<close>, where the three digits \<open>n\<close> and \<open>k\<close> denote a value within half a
  unit of the last digit of \<open>x\<close>; for \<open>0.001 \<le> x < 1\<close> it is \<open>x\<close> rounded to three decimal
  places (the nearest, the larger of two) in fixed notation; for \<open>1 \<le> x < 10^21\<close> it is
  \<open>x\<close> rounded to two decimal places in fixed notation. The score badge is empty for an
  absent score, and for a present one it is fixed markup around the formatted score.
\<close>

theorem formatScore_branches:
  "1 / 1000 < D0_001 \<and> D0_001 < 1 / 1000 + 1 / 2 ^ 63 \<and>
   formatScore (Finite 0) = js ''0.00e+0'' \<and>
   (0 < x \<and> x < D0_001 \<longrightarrow>
      (\<exists>e n. 2 \<le> e \<and> 100 \<le> n \<and> n < 1000 \<and>
         \<bar>of_nat n / 10 ^ (e + 2) - x\<bar> \<le> 1 / (2 * 10 ^ (e + 2)) \<and>
         formatScore (Finite x) =
           [digit (n div 100)] @ js ''.'' @ fixed_digits 2 n @ js ''e-'' @ decimal e)) \<and>
   (D0_001 \<le> x \<and> x < 1 \<longrightarrow>
      formatScore (Finite x) =
        decimal (round_half_up (x * 1000) div 1000) @ js ''.'' @
        fixed_digits 3 (round_half_up (x * 1000))) \<and>
   (1 \<le> x \<and> x < 10 ^ 21 \<longrightarrow>
      formatScore (Finite x) =
        decimal (round_half_up (x * 100) div 100) @ js ''.'' @
        fixed_digits 2 (round_half_up (x * 100))) \<and>
   score_badge None = [] \<and>
   (\<exists>before after. \<forall>sc. score_badge (Some sc) = before @ formatScore sc @ after)"
proof (intro conjI impI)
  show "1 / 1000 < D0_001" by (simp add: D0_001_def)
  show "D0_001 < 1 / 1000 + 1 / 2 ^ 63" by (simp add: D0_001_def)
  show "formatScore (Finite 0) = js ''0.00e+0''" by (rule formatScore_zero)
  show "score_badge None = []" by (simp add: score_badge_def)
  show "\<exists>before after. \<forall>sc. score_badge (Some sc) = before @ formatScore sc @ after"
    unfolding score_badge_def option.case append_assoc [symmetric]
    by (intro exI allI) (rule refl)
next
  assume "0 < x \<and> x < D0_001"
  then show "\<exists>e n. 2 \<le> e \<and> 100 \<le> n \<and> n < 1000 \<and>
         \<bar>of_nat n / 10 ^ (e + 2) - x\<bar> \<le> 1 / (2 * 10 ^ (e + 2)) \<and>
         formatScore (Finite x) =
           [digit (n div 100)] @ js ''.'' @ fixed_digits 2 n @ js ''e-'' @ decimal e"
    using formatScore_scientific [of x] by blast
next
  assume "D0_001 \<le> x \<and> x < 1"
  then show "formatScore (Finite x) =
        decimal (round_half_up (x * 1000) div 1000) @ js ''.'' @
        fixed_digits 3 (round_half_up (x * 1000))"
    using formatScore_fixed3 [of x] by blast
next
  assume "1 \<le> x \<and> x < 10 ^ 21"
  then show "formatScore (Finite x) =
        decimal (round_half_up (x * 100) div 100) @ js ''.'' @
        fixed_digits 2 (round_half_up (x * 100))"
    using formatScore_fixed2 [of x] by blast
qed

lemma formatScore_0_0005:
  "formatScore (Finite (1152921504606847 / 2305843009213693952)) = js ''5.00e-4''"
  by code_simp

lemma digits_0_1234:
  "decimal (round_half_up (8891907104280307 / 72057594037927936 * 1000) div 1000) @
   js ''.'' @ fixed_digits 3 (round_half_up (8891907104280307 / 72057594037927936 * 1000))
   = js ''0.123''"
  by code_simp

lemma digits_2_5:
  "decimal (round_half_up (5 / 2 * 100) div 100) @
   js ''.'' @ fixed_digits 2 (round_half_up (5 / 2 * 100))
   = js ''2.50''"
  by code_simp

text \<open>The examples of the specification, at the doubles that \<open>0.0005\<close>, \<open>0.1234\<close> and
  \<open>2.5\<close> denote.\<close>

theorem formatScore_branches_witness:
  "formatScore (Finite (1152921504606847 / 2305843009213693952)) = js ''5.00e-4'' \<and>
   formatScore (Finite (8891907104280307 / 72057594037927936)) = js ''0.123'' \<and>
   formatScore (Finite (5 / 2)) = js ''2.50''"
proof -
  have "D0_001 \<le> 8891907104280307 / 72057594037927936 \<and>
      (8891907104280307 / 72057594037927936 :: rat) < 1"
    by (simp add: D0_001_def)
  with formatScore_branches [of "8891907104280307 / 72057594037927936"]
  have "formatScore (Finite (8891907104280307 / 72057594037927936)) =
      decimal (round_half_up (8891907104280307 / 72057594037927936 * 1000) div 1000) @
      js ''.'' @ fixed_digits 3 (round_half_up (8891907104280307 / 72057594037927936 * 1000))"
    by blast
  then have a: "formatScore (Finite (8891907104280307 / 72057594037927936)) = js ''0.123''"
    by (simp only: digits_0_1234)
  have "(1::rat) \<le> 5 / 2 \<and> (5 / 2 :: rat) < 10 ^ 21" by simp
  with formatScore_branches [of "5 / 2"]
  have "formatScore (Finite (5 / 2)) =
      decimal (round_half_up (5 / 2 * 100) div 100) @
      js ''.'' @ fixed_digits 2 (round_half_up (5 / 2 * 100))"
    by blast
  then have b: "formatScore (Finite (5 / 2)) = js ''2.50''"
    by (simp only: digits_2_5)
  from a b formatScore_0_0005 show ?thesis by blast
qed

lemma toString_large_1e21: "toString_large 1000000000000000000000 = js ''1e+21''"
proof -
  let ?x = "1000000000000000000000 :: rat"
  have fl: "nat \<lfloor>?x\<rfloor> = 1000000000000000000000" by simp
  have N: "length (decimal (nat \<lfloor>?x\<rfloor>)) = 22"
    unfolding fl by (simp add: decimal.simps)
  have "\<lfloor>?x / 10 ^ 21\<rfloor> = 1" by (simp add: floor_eq_iff)
  then have c: "candidates ?x 1 = [(22, 1), (22, 2)]"
    unfolding candidates_def N Let_def by simp
  have bl: "bit_length (nat \<lfloor>?x\<rfloor>) = 70"
    unfolding fl by (simp add: bit_length.simps)
  have r1: "rounds_to ?x (denoted 1 (22, 1))"
    unfolding rounds_to_def denoted_def bl Let_def by simp
  have r2: "\<not> rounds_to ?x (denoted 1 (22, 2))"
    unfolding rounds_to_def denoted_def bl Let_def by simp
  have "filter (\<lambda>c. rounds_to ?x (denoted 1 c)) [(22, 1), (22, 2)] = [(22, 1)]"
    by (simp only: filter.simps r1 r2 if_True if_False)
  then have b: "best ?x 1 = Some (22, 1)"
    unfolding best_def c closest_def by (simp only: list.case)
  have e17: "(17::nat) = Suc 16" by simp
  have "shortest ?x 1 17 = (22, 1, 1)"
    unfolding e17 shortest.simps b by simp
  then show ?thesis
    unfolding toString_large_def by (simp add: decimal.simps js_def digit_def)
qed

text \<open>
  Claim C7 as stated covers every non-negative score. From \<open>10^21\<close> on \<open>toFixed\<close> returns
  Number::toString of the value, and for an infinite score the string \<open>Infinity\<close>: neither
  has two decimal places.
\<close>

theorem formatScore_large_counterexample:
  "formatScore (Finite (10 ^ 21)) = js ''1e+21'' \<and>
   formatScore PosInfinity = js ''Infinity''"
proof -
  have "formatScore (Finite (10 ^ 21)) = toString_large 1000000000000000000000"
    by (simp add: formatScore_def toFixed_def D0_001_def)
  moreover have "formatScore PosInfinity = js ''Infinity''"
    by (simp add: formatScore_def toFixed_def)
  ultimately show ?thesis by (simp only: toString_large_1e21)
qed

end
